theory Spec2Isabelle
  imports Complex_Main
begin

section \<open>Numbers\<close>

text \<open>
  The timeline component computes with JavaScript numbers. They are modelled as
  real numbers (rounding is not modelled); the three non-finite values that a
  division by zero produces are kept apart, because \<open>Math.min\<close> and
  \<open>Math.max\<close> turn some of them back into finite numbers.
\<close>

datatype jsnum = Fin real | PosInf | NegInf | NaN

text \<open>\<open>a / b\<close> of two finite numbers. Every zero divisor of the component is a
  difference of two equal numbers times ten, or a scale times ten whose quotient is only
  tested for being finite, so the zero is taken as \<open>+0\<close>.\<close>

definition jsdiv :: "real \<Rightarrow> real \<Rightarrow> jsnum" where
  "jsdiv a b =
     (if b \<noteq> 0 then Fin (a / b)
      else if 0 < a then PosInf
      else if a < 0 then NegInf
      else NaN)"

text \<open>\<open>Math.min\<close> and \<open>Math.max\<close>: a NaN argument gives NaN.\<close>

fun jsmin :: "jsnum \<Rightarrow> jsnum \<Rightarrow> jsnum" where
  "jsmin NaN _ = NaN"
| "jsmin _ NaN = NaN"
| "jsmin NegInf _ = NegInf"
| "jsmin _ NegInf = NegInf"
| "jsmin PosInf b = b"
| "jsmin a PosInf = a"
| "jsmin (Fin a) (Fin b) = Fin (min a b)"

fun jsmax :: "jsnum \<Rightarrow> jsnum \<Rightarrow> jsnum" where
  "jsmax NaN _ = NaN"
| "jsmax _ NaN = NaN"
| "jsmax PosInf _ = PosInf"
| "jsmax _ PosInf = PosInf"
| "jsmax NegInf b = b"
| "jsmax a NegInf = a"
| "jsmax (Fin a) (Fin b) = Fin (max a b)"

text \<open>The finite value of a number, \<open>None\<close> for \<open>Infinity\<close>, \<open>-Infinity\<close> and NaN.\<close>

fun fin :: "jsnum \<Rightarrow> real option" where
  "fin (Fin r) = Some r"
| "fin _ = None"

text \<open>\<open>a <= b\<close> on numbers: every comparison with NaN is false.\<close>

fun jsle :: "jsnum \<Rightarrow> jsnum \<Rightarrow> bool" where
  "jsle NaN _ = False"
| "jsle _ NaN = False"
| "jsle NegInf _ = True"
| "jsle _ PosInf = True"
| "jsle (Fin a) (Fin b) = (a \<le> b)"
| "jsle _ _ = False"

section \<open>Constants\<close>

definition ROW_HEIGHT :: real where "ROW_HEIGHT = 28"
definition MARKER_PADDING :: real where "MARKER_PADDING = 4"
definition AXIS_HEIGHT :: real where "AXIS_HEIGHT = 40"
definition GROUP_LABEL_WIDTH :: real where "GROUP_LABEL_WIDTH = 160"
definition OVERLAP_GAP :: real where "OVERLAP_GAP = 5"

section \<open>Records of the data model\<close>

datatype Era = BCE | CE

text \<open>\<open>DateSpec\<close> and \<open>TimelineEntry\<close> of \<open>types/index.ts\<close>, with the fields the
  timeline reads. Field names are global in a theory: the \<open>id\<close> of an entry is
  \<open>entry_id\<close>, and the fields of the records further down carry the initial of their
  record (\<open>p_x\<close> is the \<open>x\<close> of a \<open>PositionedEvent\<close>).\<close>

record DateSpec =
  year :: real
  era :: Era

record TimelineEntry =
  entry_id :: string
  date_start :: DateSpec
  date_end :: "DateSpec option"
  group_dynasty :: string
  group_era :: string

text \<open>The camera: \<open>viewState\<close> (what is drawn) and \<open>targetStateRef.current\<close> (where
  the animation goes) are both of this shape.\<close>

record ViewState =
  offsetX :: real
  offsetY :: real
  scale :: real

text \<open>\<open>getYear(entry, isEnd)\<close>.\<close>

definition getYear :: "TimelineEntry \<Rightarrow> bool \<Rightarrow> real" where
  "getYear entry isEnd =
     (let date = (case date_end entry of
                    Some d \<Rightarrow> if isEnd then d else date_start entry
                  | None \<Rightarrow> date_start entry)
      in if era date = BCE then - \<bar>year date\<bar> else year date)"

section \<open>Year range and minimum scale\<close>

text \<open>The \<open>reduce\<close> over the entries. Its seed \<open>{minYear: Infinity, maxYear: -Infinity}\<close>
  is \<open>None\<close>: the first entry replaces it, as \<open>Math.min(Infinity, y) = y\<close>.\<close>

definition yearStep :: "(real \<times> real) option \<Rightarrow> TimelineEntry \<Rightarrow> (real \<times> real) option" where
  "yearStep acc entry =
     (let startYear = getYear entry False;
          endYear = (if date_end entry \<noteq> None then getYear entry True else startYear)
      in case acc of
           None \<Rightarrow> Some (startYear, endYear)
         | Some (mn, mx) \<Rightarrow> Some (min mn startYear, max mx endYear))"

definition yearBounds :: "TimelineEntry list \<Rightarrow> real \<times> real" where
  "yearBounds entries =
     (if length entries > 0
      then (case foldl yearStep None entries of Some b \<Rightarrow> b | None \<Rightarrow> (0, 100))
      else (0, 100))"

text \<open>\<open>minScale\<close>, from the viewport width and the year range.\<close>

definition minScale :: "real \<Rightarrow> real \<Rightarrow> real \<Rightarrow> jsnum" where
  "minScale width minYear maxYear =
     jsmin (Fin 0.05) (jsdiv (width - GROUP_LABEL_WIDTH - 100) ((maxYear - minYear) * 10))"

section \<open>Year to pixel and back\<close>

definition yearToX :: "real \<Rightarrow> ViewState \<Rightarrow> real \<Rightarrow> real" where
  "yearToX minYear vs yr =
     (let pixelsPerYear = scale vs * 10
      in (yr - minYear) * pixelsPerYear + offsetX vs + GROUP_LABEL_WIDTH + 50)"

text \<open>\<open>xToYear\<close> divides by the pixels per year; \<open>None\<close> is a result that is not a
  finite number.\<close>

definition xToYear :: "real \<Rightarrow> ViewState \<Rightarrow> real \<Rightarrow> real option" where
  "xToYear minYear vs x =
     (let pixelsPerYear = scale vs * 10
      in map_option (\<lambda>q. q + minYear)
           (fin (jsdiv (x - offsetX vs - GROUP_LABEL_WIDTH - 50) pixelsPerYear)))"

section \<open>Layout and projection\<close>

text \<open>\<open>measureEventWidth\<close> asks the browser's canvas for the pixel width of an entry's
  year and title. The canvas is outside the component, so the measured width is a
  parameter \<open>mw\<close> of every function that calls it; the badge loop's
  \<open>ctx.measureText(`+${count}`).width\<close> is the parameter \<open>tw\<close> in the same way.\<close>

type_synonym measure = "TimelineEntry \<Rightarrow> real"

record Group =
  g_key :: string
  g_y :: real
  g_height :: real

record LayoutEntry =
  l_entry :: TimelineEntry
  l_row :: nat
  l_group :: string

record PositionedEvent =
  p_entry :: TimelineEntry
  p_x :: real
  p_y :: real
  p_width :: real
  p_height :: real
  p_group :: string
  p_row :: nat

text \<open>\<open>groupYMap\<close>: a later group of the same key overwrites an earlier one.\<close>

fun groupYMap :: "Group list \<Rightarrow> string \<Rightarrow> real option" where
  "groupYMap [] k = None"
| "groupYMap (g # gs) k =
     (case groupYMap gs k of
        Some v \<Rightarrow> Some v
      | None \<Rightarrow> if g_key g = k then Some (g_y g) else None)"

text \<open>The body of \<open>layoutEntries.map\<close> in \<open>computeLayout\<close>;
  \<open>groupYMap.get(le.group) || AXIS_HEIGHT\<close> also replaces a stored 0.\<close>

definition position :: "measure \<Rightarrow> real \<Rightarrow> ViewState \<Rightarrow> Group list \<Rightarrow> LayoutEntry \<Rightarrow> PositionedEvent" where
  "position mw minYear vs groups le =
     (let startX = yearToX minYear vs (getYear (l_entry le) False);
          isPeriod = (date_end (l_entry le) \<noteq> None);
          width = (if isPeriod
                   then (let endX = yearToX minYear vs (getYear (l_entry le) True)
                         in max (endX - startX) (mw (l_entry le)))
                   else mw (l_entry le));
          groupY = (case groupYMap groups (l_group le) of
                      Some v \<Rightarrow> if v = 0 then AXIS_HEIGHT else v
                    | None \<Rightarrow> AXIS_HEIGHT)
      in \<lparr>p_entry = l_entry le, p_x = startX, p_y = groupY + real (l_row le) * ROW_HEIGHT,
          p_width = width, p_height = ROW_HEIGHT - MARKER_PADDING,
          p_group = l_group le, p_row = l_row le\<rparr>)"

definition computeLayout :: "measure \<Rightarrow> real \<Rightarrow> ViewState \<Rightarrow> Group list \<Rightarrow> LayoutEntry list \<Rightarrow> PositionedEvent list" where
  "computeLayout mw minYear vs groups layoutEntries =
     map (position mw minYear vs groups) layoutEntries"

section \<open>Stable layout\<close>

datatype GroupingMode = ByDynasty | ByEra

text \<open>The default group key \<open>'Non class\<acute>e'\<close>, its last letter as the two bytes of its
  UTF-8 encoding.\<close>

definition nonClasse :: string where
  "nonClasse = ''Non class'' @ [CHR 0xC3, CHR 0xA9]"

text \<open>\<open>getGroupKey\<close>: an empty group name is falsy and gives the default key.\<close>

definition getGroupKey :: "GroupingMode \<Rightarrow> TimelineEntry \<Rightarrow> string" where
  "getGroupKey groupingMode entry =
     (case groupingMode of
        ByDynasty \<Rightarrow> if group_dynasty entry = [] then nonClasse else group_dynasty entry
      | ByEra \<Rightarrow> if group_era entry = [] then nonClasse else group_era entry)"

definition LAYOUT_SCALE :: real where "LAYOUT_SCALE = 0.5"

definition pixelsToYears :: "real \<Rightarrow> real \<Rightarrow> real" where
  "pixelsToYears px sc = px / (sc * 10)"

text \<open>The first loop of \<open>stableLayout\<close>: \<open>groupMap\<close> keeps the entries of each key in
  insertion order, \<open>groupFirstYear\<close> the smallest start year of each key.\<close>

fun groupPush :: "string \<Rightarrow> TimelineEntry \<Rightarrow> (string \<times> TimelineEntry list) list
    \<Rightarrow> (string \<times> TimelineEntry list) list" where
  "groupPush key entry [] = [(key, [entry])]"
| "groupPush key entry ((k, es) # m) =
     (if k = key then (k, es @ [entry]) # m else (k, es) # groupPush key entry m)"

definition firstYearStep :: "(string \<Rightarrow> real option) \<Rightarrow> string \<Rightarrow> real
    \<Rightarrow> (string \<Rightarrow> real option)" where
  "firstYearStep groupFirstYear key yr =
     (case groupFirstYear key of
        None \<Rightarrow> groupFirstYear(key \<mapsto> yr)
      | Some existing \<Rightarrow> if yr < existing then groupFirstYear(key \<mapsto> yr) else groupFirstYear)"

definition collectGroups :: "GroupingMode \<Rightarrow> TimelineEntry list
    \<Rightarrow> (string \<times> TimelineEntry list) list \<times> (string \<Rightarrow> real option)" where
  "collectGroups groupingMode entries =
     foldl (\<lambda>acc entry.
              (groupPush (getGroupKey groupingMode entry) entry (fst acc),
               firstYearStep (snd acc) (getGroupKey groupingMode entry) (getYear entry False)))
       ([], Map.empty) entries"

text \<open>The keys sorted by \<open>(groupFirstYear.get(a) || 0) - (groupFirstYear.get(b) || 0)\<close>; the
  sort is stable.\<close>

definition sortedGroupKeys :: "(string \<times> TimelineEntry list) list \<Rightarrow> (string \<Rightarrow> real option)
    \<Rightarrow> string list" where
  "sortedGroupKeys groupMap groupFirstYear =
     sort_key (\<lambda>k. case groupFirstYear k of
                      Some v \<Rightarrow> if v = 0 then 0 else v
                    | None \<Rightarrow> 0)
       (map fst groupMap)"

text \<open>\<open>while (rows[row] && rows[row].endYear > startYear - gap) row++\<close>: the rows are the
  list of their \<open>endYear\<close>, and \<open>limit\<close> is \<open>startYear - gap\<close>.\<close>

function findRow :: "real list \<Rightarrow> real \<Rightarrow> nat \<Rightarrow> nat" where
  "findRow rows limit row =
     (if row < length rows \<and> rows ! row > limit then findRow rows limit (row + 1) else row)"
  by pat_completeness auto
termination
  by (relation "measure (\<lambda>(rows, limit, row). length rows - row)") auto

text \<open>The body of the loop over the sorted entries of one group: the entry takes the first
  row that is free at its start year, and the row is occupied up to the end of the
  entry's label (or of its period) plus the gap. \<open>rows[row] = ...\<close> at \<open>row = rows.length\<close>
  appends.\<close>

definition packEntry :: "measure \<Rightarrow> string \<Rightarrow> real list \<times> LayoutEntry list \<Rightarrow> TimelineEntry
    \<Rightarrow> real list \<times> LayoutEntry list" where
  "packEntry mw groupKey acc entry =
     (let startYear = getYear entry False;
          isPeriod = (date_end entry \<noteq> None);
          textYearWidth = pixelsToYears (mw entry) LAYOUT_SCALE;
          endYear = (if isPeriod then max (getYear entry True) (startYear + textYearWidth)
                     else startYear + textYearWidth);
          gap = pixelsToYears 5 LAYOUT_SCALE;
          row = findRow (fst acc) (startYear - gap) 0
      in ((if row < length (fst acc) then (fst acc)[row := endYear + gap]
           else fst acc @ [endYear + gap]),
          snd acc @ [\<lparr>l_entry = entry, l_row = row, l_group = groupKey\<rparr>]))"

definition packGroup :: "measure \<Rightarrow> string \<Rightarrow> TimelineEntry list \<Rightarrow> real list \<times> LayoutEntry list" where
  "packGroup mw groupKey groupEntries =
     foldl (packEntry mw groupKey) ([], []) (sort_key (\<lambda>e. getYear e False) groupEntries)"

text \<open>The loop over the sorted keys: the layout entries of all groups, and each group's key
  and row count. Every key comes from \<open>groupMap\<close>, so the lookup finds its entries.\<close>

definition layoutGroups :: "measure \<Rightarrow> (string \<times> TimelineEntry list) list \<Rightarrow> string list
    \<Rightarrow> LayoutEntry list \<times> (string \<times> nat) list" where
  "layoutGroups mw groupMap keys =
     foldl (\<lambda>acc groupKey.
              (let groupEntries = (case map_of groupMap groupKey of Some es \<Rightarrow> es | None \<Rightarrow> []);
                   packed = packGroup mw groupKey groupEntries
               in (fst acc @ snd packed,
                   snd acc @ [(groupKey, max (length (fst packed)) 1)])))
       ([], []) keys"

text \<open>The vertical placement of the groups below the axis, from \<open>currentY\<close> on; the
  \<open>entries\<close> of a group are not read again and are left out of \<open>Group\<close>.\<close>

fun placeGroups :: "real \<Rightarrow> (string \<times> nat) list \<Rightarrow> Group list \<times> real" where
  "placeGroups currentY [] = ([], currentY)"
| "placeGroups currentY ((key, rowCount) # gs) =
     (let height = real rowCount * ROW_HEIGHT;
          rest = placeGroups (currentY + height) gs
      in (\<lparr>g_key = key, g_y = currentY, g_height = height\<rparr> # fst rest, snd rest))"

record StableLayout =
  sl_layoutEntries :: "LayoutEntry list"
  sl_groups :: "Group list"
  sl_totalHeight :: real

definition stableLayout :: "measure \<Rightarrow> GroupingMode \<Rightarrow> TimelineEntry list \<Rightarrow> StableLayout" where
  "stableLayout mw groupingMode entries =
     (let collected = collectGroups groupingMode entries;
          keys = sortedGroupKeys (fst collected) (snd collected);
          laid = layoutGroups mw (fst collected) keys;
          placed = placeGroups AXIS_HEIGHT (snd laid)
      in \<lparr>sl_layoutEntries = fst laid, sl_groups = fst placed, sl_totalHeight = snd placed\<rparr>)"

text \<open>The positioned events of a draw: \<open>computeLayout\<close> on the stable layout of the
  entries.\<close>

definition positionedEvents :: "measure \<Rightarrow> GroupingMode \<Rightarrow> real \<Rightarrow> ViewState \<Rightarrow> TimelineEntry list
    \<Rightarrow> PositionedEvent list" where
  "positionedEvents mw groupingMode minYear vs entries =
     (let sl = stableLayout mw groupingMode entries
      in computeLayout mw minYear vs (sl_groups sl) (sl_layoutEntries sl))"

section \<open>Camera operations\<close>

text \<open>Each operation returns the new \<open>targetStateRef.current\<close>; \<open>None\<close> is a target
  with a field that is not a finite number.\<close>

definition zoomIn :: "ViewState \<Rightarrow> ViewState" where
  "zoomIn prev = prev\<lparr>scale := min 5 (scale prev * 1.3)\<rparr>"

definition zoomOut :: "jsnum \<Rightarrow> ViewState \<Rightarrow> ViewState option" where
  "zoomOut ms prev =
     map_option (\<lambda>s. prev\<lparr>scale := s\<rparr>) (fin (jsmax ms (Fin (scale prev / 1.3))))"

text \<open>\<open>fit\<close> reads the viewport \<open>dimensions\<close>, the year range, \<open>stableLayout.totalHeight\<close>,
  \<open>positionedEventsRef.current\<close> and the selected entry.\<close>

definition fitOffsetY :: "real \<Rightarrow> real \<Rightarrow> PositionedEvent list \<Rightarrow> TimelineEntry option \<Rightarrow> real" where
  "fitOffsetY height totalHeight positioned selectedEntry =
     (let contentHeight = totalHeight - AXIS_HEIGHT;
          viewportHeight = height - AXIS_HEIGHT
      in if contentHeight \<le> viewportHeight then (viewportHeight - contentHeight) / 2
         else (case selectedEntry of
                 Some sel \<Rightarrow>
                   (case find (\<lambda>p. entry_id (p_entry p) = entry_id sel) positioned of
                      Some pos \<Rightarrow>
                        (let oy = - (p_y pos - height / 2 + ROW_HEIGHT / 2 - AXIS_HEIGHT);
                             minOffsetY = min 0 (height - AXIS_HEIGHT - totalHeight)
                         in max minOffsetY (min 0 oy))
                    | None \<Rightarrow> 0)
               | None \<Rightarrow> 0))"

definition fit :: "real \<Rightarrow> real \<Rightarrow> real \<Rightarrow> real \<Rightarrow> real \<Rightarrow> PositionedEvent list
    \<Rightarrow> TimelineEntry option \<Rightarrow> ViewState option" where
  "fit width height minYear maxYear totalHeight positioned selectedEntry =
     (let yearRange = maxYear - minYear;
          availableWidth = width - GROUP_LABEL_WIDTH - 100;
          newScale = jsdiv availableWidth (yearRange * 10)
      in case fin (jsmax (minScale width minYear maxYear) (jsmin (Fin 5) newScale)) of
           None \<Rightarrow> None
         | Some finalScale \<Rightarrow>
             (let oy = fitOffsetY height totalHeight positioned selectedEntry;
                  ox = (case selectedEntry of
                          None \<Rightarrow> 0
                        | Some sel \<Rightarrow>
                            (let entryYear = (if era (date_start sel) = BCE
                                              then - year (date_start sel)
                                              else year (date_start sel));
                                 pixelsPerYear = finalScale * 10
                             in - (entryYear - minYear) * pixelsPerYear
                                + (width - GROUP_LABEL_WIDTH) / 2 - 50))
              in Some \<lparr>offsetX = ox, offsetY = oy, scale = finalScale\<rparr>))"

text \<open>\<open>findIndex\<close>: \<open>-1\<close> when no element satisfies the test.\<close>

fun findIndex :: "('a \<Rightarrow> bool) \<Rightarrow> 'a list \<Rightarrow> int" where
  "findIndex P [] = -1"
| "findIndex P (a # as) =
     (if P a then 0 else (let r = findIndex P as in if r < 0 then -1 else r + 1))"

text \<open>\<open>scrollToEntry\<close>: without a positioned event of the entry's id it returns early and
  the target stays. The comparator sort by start year is stable, as \<open>sort_key\<close> is.\<close>

definition neededScale :: "measure \<Rightarrow> PositionedEvent list \<Rightarrow> TimelineEntry \<Rightarrow> PositionedEvent \<Rightarrow> real" where
  "neededScale mw positioned entry pos =
     (let entryYear = getYear entry False;
          entryWidth = mw entry;
          sameRow = sort_key (\<lambda>p. getYear (p_entry p) False)
                      (filter (\<lambda>p. p_group p = p_group pos \<and> p_row p = p_row pos) positioned);
          idx = findIndex (\<lambda>p. entry_id (p_entry p) = entry_id entry) sameRow;
          n0 = 0;
          n1 = (if idx > 0
                then (let left = sameRow ! nat (idx - 1);
                          yearGap = entryYear - getYear (p_entry left) False
                      in if yearGap > 0
                         then max n0 ((mw (p_entry left) + OVERLAP_GAP) / (yearGap * 10))
                         else n0)
                else n0)
      in if idx < int (length sameRow) - 1
         then (let right = sameRow ! nat (idx + 1);
                   yearGap = getYear (p_entry right) False - entryYear
               in if yearGap > 0
                  then max n1 ((entryWidth + OVERLAP_GAP) / (yearGap * 10))
                  else n1)
         else n1)"

definition scrollToEntry :: "measure \<Rightarrow> real \<Rightarrow> real \<Rightarrow> real \<Rightarrow> PositionedEvent list
    \<Rightarrow> TimelineEntry \<Rightarrow> ViewState \<Rightarrow> ViewState" where
  "scrollToEntry mw width height minYear positioned entry target =
     (case find (\<lambda>p. entry_id (p_entry p) = entry_id entry) positioned of
        None \<Rightarrow> target
      | Some pos \<Rightarrow>
          (let entryYear = getYear entry False;
               needed = neededScale mw positioned entry pos;
               finalScale = (if needed > 0 then min 5 (needed * 1.1) else scale target);
               pixelsPerYear = finalScale * 10;
               targetX = - (entryYear - minYear) * pixelsPerYear
                         + (width - GROUP_LABEL_WIDTH) / 2 - 50;
               targetY = - (p_y pos - height / 2 + ROW_HEIGHT / 2 - AXIS_HEIGHT)
           in \<lparr>offsetX = targetX, offsetY = targetY, scale = finalScale\<rparr>))"

text \<open>The drag branch of \<open>handleMouseMove\<close>: the new state is written to the view state
  and to the target alike; the flag is the new \<open>hasDraggedRef.current\<close>.\<close>

record DragStart =
  d_x :: real
  d_y :: real
  d_offsetX :: real
  d_offsetY :: real

definition dragMove :: "real \<Rightarrow> real \<Rightarrow> DragStart \<Rightarrow> bool \<Rightarrow> real \<Rightarrow> real \<Rightarrow> ViewState
    \<Rightarrow> bool \<times> ViewState" where
  "dragMove height totalHeight dragStart hasDragged clientX clientY vs =
     (let dx = clientX - d_x dragStart;
          dy = clientY - d_y dragStart;
          dragged = (if \<bar>dx\<bar> > 5 \<or> \<bar>dy\<bar> > 5 then True else hasDragged);
          maxOffsetY = 0;
          minOffsetY = min 0 (height - AXIS_HEIGHT - totalHeight);
          newOffsetX = d_offsetX dragStart + dx;
          newOffsetY = max minOffsetY (min maxOffsetY (d_offsetY dragStart + dy))
      in (dragged, \<lparr>offsetX = newOffsetX, offsetY = newOffsetY, scale = scale vs\<rparr>))"

text \<open>\<open>handleWheel\<close>: with the zoom modifier it reads the view state \<open>vs\<close> and
  replaces the target; otherwise it pans the target \<open>prev\<close>.\<close>

definition SCROLL_SPEED :: real where "SCROLL_SPEED = 0.75"
definition ZOOM_SPEED :: real where "ZOOM_SPEED = 0.025"

record WheelEvent =
  w_deltaX :: real
  w_deltaY :: real
  w_zoomKey :: bool
  w_shiftKey :: bool
  w_mouseX :: real

definition wheelZoom :: "jsnum \<Rightarrow> real \<Rightarrow> real \<Rightarrow> real \<Rightarrow> ViewState \<Rightarrow> ViewState option" where
  "wheelZoom ms minYear deltaY mouseX vs =
     (let zoomFactor = 1 - deltaY * ZOOM_SPEED;
          currentPixelsPerYear = scale vs * 10
      in case map_option (\<lambda>q. q + minYear)
                (fin (jsdiv (mouseX - offsetX vs - GROUP_LABEL_WIDTH - 50) currentPixelsPerYear)) of
           None \<Rightarrow> None
         | Some yearAtMouse \<Rightarrow>
             (case fin (jsmax ms (jsmin (Fin 5) (Fin (scale vs * zoomFactor)))) of
                None \<Rightarrow> None
              | Some newScale \<Rightarrow>
                  (let newPixelsPerYear = newScale * 10;
                       newOffsetX = mouseX - (yearAtMouse - minYear) * newPixelsPerYear
                                    - GROUP_LABEL_WIDTH - 50
                   in Some \<lparr>offsetX = newOffsetX, offsetY = offsetY vs, scale = newScale\<rparr>)))"

definition handleWheel :: "jsnum \<Rightarrow> real \<Rightarrow> real \<Rightarrow> real \<Rightarrow> WheelEvent \<Rightarrow> ViewState \<Rightarrow> ViewState
    \<Rightarrow> ViewState option" where
  "handleWheel ms minYear height totalHeight e vs prev =
     (if w_zoomKey e then wheelZoom ms minYear (w_deltaY e) (w_mouseX e) vs
      else (let deltaX = w_deltaX e * SCROLL_SPEED;
                deltaY = w_deltaY e * SCROLL_SPEED
            in if w_shiftKey e \<or> \<bar>w_deltaX e\<bar> > \<bar>w_deltaY e\<bar>
               then Some (prev\<lparr>offsetX := offsetX prev - deltaX\<rparr>)
               else (let maxOffsetY = 0;
                         minOffsetY = min 0 (height - AXIS_HEIGHT - totalHeight)
                     in Some (prev\<lparr>offsetY := max minOffsetY (min maxOffsetY (offsetY prev - deltaY))\<rparr>))))"

section \<open>Visibility culling and badges\<close>

text \<open>\<open>rowEvents\<close> is a \<open>Map\<close> from the key \<open>`${pos.group}:${pos.row}`\<close> to the events
  of that row, in insertion order. The row is a number, so the text after the last colon
  determines it and the key determines the pair; the model keeps the pair.\<close>

type_synonym rowKey = "string \<times> nat"

definition rk :: "PositionedEvent \<Rightarrow> rowKey" where
  "rk pos = (p_group pos, p_row pos)"

fun rowPush :: "PositionedEvent \<Rightarrow> (rowKey \<times> PositionedEvent list) list
    \<Rightarrow> (rowKey \<times> PositionedEvent list) list" where
  "rowPush pos [] = [(rk pos, [pos])]"
| "rowPush pos ((k, es) # m) =
     (if k = rk pos then (k, es @ [pos]) # m else (k, es) # rowPush pos m)"

definition rowEvents :: "PositionedEvent list \<Rightarrow> (rowKey \<times> PositionedEvent list) list" where
  "rowEvents positioned = foldl (\<lambda>m pos. rowPush pos m) [] positioned"

record HiddenBadge =
  afterPos :: PositionedEvent
  beforePos :: PositionedEvent
  count :: nat
  yearMin :: real
  yearMax :: real
  rightmostLabelWidth :: real

text \<open>\<open>getYear(e, true) || getYear(e)\<close>: an end-or-start year of 0 is falsy.\<close>

definition yearOr :: "TimelineEntry \<Rightarrow> real" where
  "yearOr e = (if getYear e True = 0 then getYear e False else getYear e True)"

text \<open>The object pushed onto \<open>hiddenBadges\<close> when the event at index \<open>i\<close> is visible and
  closes a hidden run that began after the visible event at \<open>lastVisibleIdx\<close>.\<close>

definition closingBadge :: "measure \<Rightarrow> PositionedEvent list \<Rightarrow> nat \<Rightarrow> nat \<Rightarrow> HiddenBadge" where
  "closingBadge mw events lastVisibleIdx i =
     \<lparr>afterPos = events ! lastVisibleIdx, beforePos = events ! i,
      count = i - lastVisibleIdx - 1,
      yearMin = getYear (p_entry (events ! lastVisibleIdx)) False,
      yearMax = yearOr (p_entry (events ! i)),
      rightmostLabelWidth = mw (p_entry (events ! i))\<rparr>"

text \<open>The object pushed for a hidden run at the end of the row: \<open>afterPos\<close> and
  \<open>beforePos\<close> are the same event.\<close>

definition trailingBadge :: "measure \<Rightarrow> PositionedEvent list \<Rightarrow> nat \<Rightarrow> HiddenBadge" where
  "trailingBadge mw events lastVisibleIdx =
     \<lparr>afterPos = events ! lastVisibleIdx, beforePos = events ! lastVisibleIdx,
      count = length events - 1 - lastVisibleIdx,
      yearMin = getYear (p_entry (events ! lastVisibleIdx)) False,
      yearMax = yearOr (p_entry (events ! (length events - 1))),
      rightmostLabelWidth = mw (p_entry (events ! (length events - 1)))\<rparr>"

text \<open>The \<open>for (let i = 1; ...)\<close> loop over one row, from index \<open>i\<close> on. It returns the
  last visible index, the visible set and the badges.\<close>

function rowLoop :: "measure \<Rightarrow> PositionedEvent list \<Rightarrow> nat \<Rightarrow> nat \<Rightarrow> string set
    \<Rightarrow> HiddenBadge list \<Rightarrow> nat \<times> string set \<times> HiddenBadge list" where
  "rowLoop mw events i lastVisibleIdx visibleSet hiddenBadges =
     (if i < length events
      then (if p_x (events ! i) \<ge> p_x (events ! (i - 1)) + p_width (events ! (i - 1)) + OVERLAP_GAP
            then rowLoop mw events (i + 1) i
                   (insert (entry_id (p_entry (events ! i))) visibleSet)
                   (if i - lastVisibleIdx - 1 > 0
                    then hiddenBadges @ [closingBadge mw events lastVisibleIdx i]
                    else hiddenBadges)
            else rowLoop mw events (i + 1) lastVisibleIdx visibleSet hiddenBadges)
      else (lastVisibleIdx, visibleSet, hiddenBadges))"
  by pat_completeness auto
termination
  by (relation "measure (\<lambda>(mw, events, i, l, v, b). length events - i)") auto

text \<open>One iteration of \<open>for (const [, events] of rowEvents)\<close>: the first event is visible,
  the loop runs from index 1, and a hidden run at the end of the row gets its badge.\<close>

definition rowPass :: "measure \<Rightarrow> PositionedEvent list \<Rightarrow> string set \<times> HiddenBadge list
    \<Rightarrow> string set \<times> HiddenBadge list" where
  "rowPass mw events acc =
     (case rowLoop mw events 1 0 (insert (entry_id (p_entry (events ! 0))) (fst acc)) (snd acc) of
        (lastVisibleIdx, visibleSet, hiddenBadges) \<Rightarrow>
          (if length events - 1 - lastVisibleIdx > 0
           then (visibleSet, hiddenBadges @ [trailingBadge mw events lastVisibleIdx])
           else (visibleSet, hiddenBadges)))"

definition cullRows :: "measure \<Rightarrow> PositionedEvent list \<Rightarrow> string set \<times> HiddenBadge list" where
  "cullRows mw positioned =
     foldl (\<lambda>acc r. rowPass mw (snd r) acc) ({}, []) (rowEvents positioned)"

text \<open>The visible set after \<open>if (selectedEntry) visibleSet.add(selectedEntry.id)\<close>, and
  the badge list.\<close>

definition visibleSet :: "measure \<Rightarrow> PositionedEvent list \<Rightarrow> TimelineEntry option \<Rightarrow> string set" where
  "visibleSet mw positioned selectedEntry =
     (case selectedEntry of
        Some sel \<Rightarrow> insert (entry_id sel) (fst (cullRows mw positioned))
      | None \<Rightarrow> fst (cullRows mw positioned))"

definition hiddenBadges :: "measure \<Rightarrow> PositionedEvent list \<Rightarrow> HiddenBadge list" where
  "hiddenBadges mw positioned = snd (cullRows mw positioned)"

section \<open>Badge rectangles\<close>

record BadgeHitRect =
  b_x :: real
  b_y :: real
  b_w :: real
  b_h :: real
  b_minYear :: real
  b_maxYear :: real
  b_rightmostLabelWidth :: real

definition badgeH :: real where "badgeH = 16"

text \<open>The left edge \<open>bx\<close> of a badge, \<open>None\<close> where the loop body leaves by the
  \<open>continue\<close> of the gap test. \<open>afterPos === beforePos\<close> compares two references into the
  positioned events; for events of different entry ids it is the equality of the records.\<close>

definition badgeX :: "(nat \<Rightarrow> real) \<Rightarrow> HiddenBadge \<Rightarrow> real option" where
  "badgeX tw b =
     (let afterEndX = p_x (afterPos b) + p_width (afterPos b);
          isTrailing = (afterPos b = beforePos b)
      in if isTrailing then Some (afterEndX + 4)
         else (let beforeStartX = p_x (beforePos b);
                   gapWidth = beforeStartX - afterEndX
               in if gapWidth < 24 then None
                  else Some (afterEndX + (gapWidth - tw (count b) - 8) / 2)))"

text \<open>One iteration of the badge loop of the draw effect: \<open>None\<close> for each \<open>continue\<close>,
  otherwise the badge is painted and its rectangle pushed onto \<open>badgeHitRects\<close>.\<close>

definition badgeRect :: "(nat \<Rightarrow> real) \<Rightarrow> real \<Rightarrow> real \<Rightarrow> ViewState \<Rightarrow> HiddenBadge
    \<Rightarrow> BadgeHitRect option" where
  "badgeRect tw width height vs b =
     (let y = p_y (afterPos b) + offsetY vs
      in if y + p_height (afterPos b) < AXIS_HEIGHT \<or> y > height then None
         else (case badgeX tw b of
                 None \<Rightarrow> None
               | Some bx \<Rightarrow>
                   if bx > width \<or> bx + 40 < GROUP_LABEL_WIDTH then None
                   else Some \<lparr>b_x = bx, b_y = y + (p_height (afterPos b) - badgeH) / 2,
                              b_w = tw (count b) + 8, b_h = badgeH,
                              b_minYear = yearMin b, b_maxYear = yearMax b,
                              b_rightmostLabelWidth = rightmostLabelWidth b\<rparr>))"

definition badgeHitRects :: "(nat \<Rightarrow> real) \<Rightarrow> real \<Rightarrow> real \<Rightarrow> ViewState \<Rightarrow> HiddenBadge list
    \<Rightarrow> BadgeHitRect list" where
  "badgeHitRects tw width height vs badges = List.map_filter (badgeRect tw width height vs) badges"

section \<open>Click handling\<close>

definition inBadge :: "real \<Rightarrow> real \<Rightarrow> BadgeHitRect \<Rightarrow> bool" where
  "inBadge x y badge =
     (x \<ge> b_x badge \<and> x \<le> b_x badge + b_w badge \<and> y \<ge> b_y badge \<and> y \<le> b_y badge + b_h badge)"

definition inEvent :: "real \<Rightarrow> real \<Rightarrow> ViewState \<Rightarrow> PositionedEvent \<Rightarrow> bool" where
  "inEvent x y vs pos =
     (let posY = p_y pos + offsetY vs
      in x \<ge> p_x pos \<and> x \<le> p_x pos + p_width pos \<and> y \<ge> posY \<and> y \<le> posY + p_height pos)"

definition padding :: "BadgeHitRect \<Rightarrow> real" where
  "padding badge = max ((b_maxYear badge - b_minYear badge) * 0.15) 20"

text \<open>The zoom-to-fit of a clicked badge: the body of the badge loop of \<open>handleClick\<close>.\<close>

definition zoomToBadge :: "real \<Rightarrow> real \<Rightarrow> BadgeHitRect \<Rightarrow> ViewState \<Rightarrow> ViewState option" where
  "zoomToBadge width minYear badge prev =
     (let fitMin = b_minYear badge - padding badge;
          fitMax = b_maxYear badge + padding badge;
          fitRange = fitMax - fitMin;
          availableWidth = width - GROUP_LABEL_WIDTH - b_rightmostLabelWidth badge
      in case fin (jsmax (Fin 0.05) (jsmin (Fin 5) (jsdiv availableWidth (fitRange * 10)))) of
           None \<Rightarrow> None
         | Some newScale \<Rightarrow>
             Some (prev\<lparr>scale := newScale,
                        offsetX := - (fitMin - minYear) * newScale * 10 - 50\<rparr>))"

datatype ClickResult = Ignored | NewTarget "ViewState option" | SelectEntry "TimelineEntry option"

definition handleClick :: "real \<Rightarrow> real \<Rightarrow> bool \<Rightarrow> real \<Rightarrow> real \<Rightarrow> BadgeHitRect list
    \<Rightarrow> PositionedEvent list \<Rightarrow> ViewState \<Rightarrow> ViewState \<Rightarrow> ClickResult" where
  "handleClick width minYear hasDragged x y rects positioned vs prev =
     (if hasDragged then Ignored
      else if x < GROUP_LABEL_WIDTH \<or> y < AXIS_HEIGHT then Ignored
      else (case find (inBadge x y) rects of
              Some badge \<Rightarrow> NewTarget (zoomToBadge width minYear badge prev)
            | None \<Rightarrow>
                (case find (inEvent x y vs) positioned of
                   Some pos \<Rightarrow> SelectEntry (Some (p_entry pos))
                 | None \<Rightarrow> SelectEntry None)))"

section \<open>Notions used by the statements\<close>

text \<open>The test of the row loop: the event at index \<open>i\<close> of a row is shown when it is
  the first of the row or starts at least \<open>OVERLAP_GAP\<close> pixels right of the end of
  the event before it.\<close>

definition shown :: "PositionedEvent list \<Rightarrow> nat \<Rightarrow> bool" where
  "shown events i =
     (i = 0 \<or> p_x (events ! i) \<ge> p_x (events ! (i - 1)) + p_width (events ! (i - 1)) + OVERLAP_GAP)"

text \<open>The vertical range of the camera that the drag and the wheel clamp to.\<close>

definition offsetYInBounds :: "real \<Rightarrow> real \<Rightarrow> real \<Rightarrow> bool" where
  "offsetYInBounds height totalHeight oy =
     (min 0 (height - AXIS_HEIGHT - totalHeight) \<le> oy \<and> oy \<le> 0)"

text \<open>The scale range \<open>[minScale, 5]\<close>.\<close>

definition scaleInRange :: "jsnum \<Rightarrow> real \<Rightarrow> bool" where
  "scaleInRange ms s = (jsle ms (Fin s) \<and> s \<le> 5)"

text \<open>The ids of the shown events of a row, and the badges that the pass over one row
  emits.\<close>

definition shownIds :: "PositionedEvent list \<Rightarrow> string set" where
  "shownIds events =
     set (map (\<lambda>k. entry_id (p_entry (events ! k))) (filter (shown events) [0..<length events]))"

definition rowBadges :: "measure \<Rightarrow> PositionedEvent list \<Rightarrow> HiddenBadge list" where
  "rowBadges mw events = snd (rowPass mw events ({}, []))"

text \<open>A hidden run closed between two shown events: the events at \<open>j\<close> and \<open>k\<close> are
  shown and those strictly between them, at least one, are not. A trailing run: the
  event at \<open>j\<close> is the last shown one and is not the last of the row.\<close>

definition closesRun :: "PositionedEvent list \<Rightarrow> nat \<Rightarrow> nat \<Rightarrow> bool" where
  "closesRun events j k =
     (Suc j < k \<and> k < length events \<and> shown events j \<and> shown events k
      \<and> list_all (\<lambda>m. \<not> shown events m) [Suc j..<k])"

definition trailingRun :: "PositionedEvent list \<Rightarrow> nat \<Rightarrow> bool" where
  "trailingRun events j =
     (Suc j < length events \<and> shown events j
      \<and> list_all (\<lambda>m. \<not> shown events m) [Suc j..<length events])"

text \<open>A point record (no end date, era CE) of the group \<open>g\<close>, for the scenarios.\<close>

definition pointRecord :: "string \<Rightarrow> real \<Rightarrow> TimelineEntry" where
  "pointRecord i y =
     \<lparr>entry_id = i, date_start = \<lparr>year = y, era = CE\<rparr>, date_end = None,
      group_dynasty = ''g'', group_era = ''g''\<rparr>"

section \<open>Round trip between years and pixels\<close>

text \<open>
  C4, as stated: for every camera state and every year \<open>y\<close>,
  \<open>xToYear (yearToX y) = y\<close>. In a viewport 260 pixels wide \<open>fit\<close> sets the scale 0;
  in that camera state every year is drawn at the same pixel and \<open>xToYear\<close> divides
  0 by 0.
\<close>

theorem C4_roundtrip_counterexample:
  "fit 260 600 0 100 68 [] None = Some \<lparr>offsetX = 0, offsetY = 266, scale = 0\<rparr>
   \<and> xToYear 0 \<lparr>offsetX = 0, offsetY = 266, scale = 0\<rparr>
       (yearToX 0 \<lparr>offsetX = 0, offsetY = 266, scale = 0\<rparr> 1) \<noteq> Some 1"
  by (simp add: fit_def fitOffsetY_def minScale_def xToYear_def yearToX_def jsdiv_def
      GROUP_LABEL_WIDTH_def AXIS_HEIGHT_def)

text \<open>
  C4, amended: for every camera state whose scale is not 0, every year \<open>y\<close> and every
  pixel coordinate \<open>x\<close>, \<open>xToYear (yearToX y) = y\<close> and \<open>yearToX (xToYear x) = x\<close>
  (exactly, over the real numbers).
\<close>

theorem C4_roundtrip:
  assumes "scale vs \<noteq> 0"
  shows "xToYear minYear vs (yearToX minYear vs y) = Some y
       \<and> map_option (yearToX minYear vs) (xToYear minYear vs x) = Some x"
  using assms by (simp add: xToYear_def yearToX_def jsdiv_def)

theorem C4_roundtrip_witness:
  "scale \<lparr>offsetX = 12, offsetY = -3, scale = 3 / 10\<rparr> \<noteq> 0
   \<and> xToYear (-50) \<lparr>offsetX = 12, offsetY = -3, scale = 3 / 10\<rparr>
       (yearToX (-50) \<lparr>offsetX = 12, offsetY = -3, scale = 3 / 10\<rparr> 1789) = Some 1789
   \<and> map_option (yearToX (-50) \<lparr>offsetX = 12, offsetY = -3, scale = 3 / 10\<rparr>)
       (xToYear (-50) \<lparr>offsetX = 12, offsetY = -3, scale = 3 / 10\<rparr> 400) = Some 400"
  using C4_roundtrip [of "\<lparr>offsetX = 12, offsetY = -3, scale = 3 / 10\<rparr>" "-50" 1789 400]
  by simp

section \<open>Arithmetic of the scale\<close>

lemma minScale_cases:
  "minScale width mn mx =
     (if mx \<noteq> mn then Fin (min 0.05 ((width - 260) / ((mx - mn) * 10)))
      else if width > 260 then Fin 0.05
      else if width < 260 then NegInf else NaN)"
  by (simp add: minScale_def jsdiv_def GROUP_LABEL_WIDTH_def)

lemma fit_equation:
  fixes d a :: real
  assumes "d \<noteq> 0"
  shows "d * (a / (d * 10)) * 10 = a"
  using assms by simp

lemma fit_cancel:
  fixes d a b :: real
  assumes "d \<noteq> 0" and "d * a * 10 = d * b * 10"
  shows "a = b"
  using assms by simp

lemma span_width: "yearToX mn t b - yearToX mn t a = (b - a) * scale t * 10"
  unfolding yearToX_def Let_def by (simp add: left_diff_distrib)

lemma left_edge:
  "yearToX mn (prev\<lparr>scale := s, offsetX := - (f - mn) * s * 10 - 50\<rparr>) f = GROUP_LABEL_WIDTH"
  unfolding yearToX_def Let_def by (simp add: left_diff_distrib)

section \<open>The minimum scale\<close>

text \<open>
  C9, as stated: for every non-empty record set and viewport width, \<open>minScale\<close> is the
  scale \<open>s\<close> that solves \<open>(maxYear - minYear) * s * 10 = available plot width\<close>. For
  two records at the years 0 and 1000 in a viewport 1260 pixels wide the available width
  is 1000 pixels, the solving scale is 1/10, and \<open>minScale\<close> is 1/20, at which the span
  takes 500 pixels.
\<close>

theorem C9_minScale_counterexample:
  "yearBounds [\<lparr>entry_id = ''a'', date_start = \<lparr>year = 0, era = CE\<rparr>, date_end = None,
      group_dynasty = ''g'', group_era = ''g''\<rparr>,
               \<lparr>entry_id = ''b'', date_start = \<lparr>year = 1000, era = CE\<rparr>, date_end = None,
      group_dynasty = ''g'', group_era = ''g''\<rparr>]
     = (0, 1000)
   \<and> minScale 1260 0 1000 = Fin (1 / 20)
   \<and> (1000 - 0) * (1 / 20) * 10 \<noteq> 1260 - GROUP_LABEL_WIDTH - 100"
  by (simp add: yearBounds_def yearStep_def getYear_def minScale_cases GROUP_LABEL_WIDTH_def)

text \<open>
  C9, amended: for every non-empty record set whose smallest and largest ordering years
  differ, and every viewport width, \<open>minScale\<close> is the smaller of 0.05 and the scale
  that solves \<open>(maxYear - minYear) * s * 10 = width - GROUP_LABEL_WIDTH - 100\<close>; it
  solves that equation itself exactly when the solving scale is at most 0.05.
\<close>

theorem C9_minScale:
  assumes "entries \<noteq> []" and "yearBounds entries = (mn, mx)" and "mn \<noteq> mx"
  shows "\<exists>s. minScale width mn mx = Fin s
           \<and> s = min 0.05 ((width - GROUP_LABEL_WIDTH - 100) / ((mx - mn) * 10))
           \<and> ((mx - mn) * s * 10 = width - GROUP_LABEL_WIDTH - 100
                \<longleftrightarrow> (width - GROUP_LABEL_WIDTH - 100) / ((mx - mn) * 10) \<le> 0.05)"
proof -
  let ?a = "width - GROUP_LABEL_WIDTH - 100"
  let ?f = "?a / ((mx - mn) * 10)"
  have d: "mx - mn \<noteq> 0" using assms(3) by simp
  have ms: "minScale width mn mx = Fin (min 0.05 ?f)"
    using assms(3) by (simp add: minScale_def jsdiv_def)
  have eq: "(mx - mn) * ?f * 10 = ?a" using d by (rule fit_equation)
  have "((mx - mn) * min 0.05 ?f * 10 = ?a) \<longleftrightarrow> ?f \<le> 0.05"
  proof (cases "?f \<le> 0.05")
    case True
    then have "min 0.05 ?f = ?f" by simp
    with eq True show ?thesis by simp
  next
    case False
    then have m: "min 0.05 ?f = 0.05" by simp
    have "(mx - mn) * 0.05 * 10 \<noteq> (mx - mn) * ?f * 10"
      using d False fit_cancel [of "mx - mn" "0.05" ?f] by auto
    with eq m False show ?thesis by simp
  qed
  with ms show ?thesis by blast
qed

theorem C9_minScale_witness:
  "[\<lparr>entry_id = ''a'', date_start = \<lparr>year = 0, era = CE\<rparr>, date_end = None,
      group_dynasty = ''g'', group_era = ''g''\<rparr>,
    \<lparr>entry_id = ''b'', date_start = \<lparr>year = 1000, era = CE\<rparr>, date_end = None,
      group_dynasty = ''g'', group_era = ''g''\<rparr>] \<noteq> []
   \<and> yearBounds [\<lparr>entry_id = ''a'', date_start = \<lparr>year = 0, era = CE\<rparr>, date_end = None,
      group_dynasty = ''g'', group_era = ''g''\<rparr>,
      \<lparr>entry_id = ''b'', date_start = \<lparr>year = 1000, era = CE\<rparr>, date_end = None,
      group_dynasty = ''g'', group_era = ''g''\<rparr>] = (0, 1000)
   \<and> (0::real) \<noteq> 1000
   \<and> minScale 560 0 1000 = Fin (3 / 100)
   \<and> (1000 - 0) * (3 / 100) * 10 = 560 - GROUP_LABEL_WIDTH - 100"
proof -
  let ?es = "[\<lparr>entry_id = ''a'', date_start = \<lparr>year = 0, era = CE\<rparr>, date_end = None,
      group_dynasty = ''g'', group_era = ''g''\<rparr>,
    \<lparr>entry_id = ''b'', date_start = \<lparr>year = 1000, era = CE\<rparr>, date_end = None,
      group_dynasty = ''g'', group_era = ''g''\<rparr>]"
  have yb: "yearBounds ?es = (0, 1000)"
    by (simp add: yearBounds_def yearStep_def getYear_def)
  have ne: "?es \<noteq> []" by simp
  have d: "(0::real) \<noteq> 1000" by simp
  from C9_minScale [OF ne yb d, of 560]
  show ?thesis using yb by (auto simp add: GROUP_LABEL_WIDTH_def)
qed

section \<open>Zooming in and out again\<close>

text \<open>
  C7, as stated: for every camera target, \<open>zoomIn\<close> followed by \<open>zoomOut\<close> gives the
  target back. At the largest scale 5 \<open>zoomIn\<close> is clamped and changes nothing, and
  \<open>zoomOut\<close> then divides the scale by 1.3.
\<close>

theorem C7_zoom_inverse_counterexample:
  "zoomOut (Fin (1 / 20)) (zoomIn \<lparr>offsetX = 0, offsetY = 0, scale = 5\<rparr>)
     \<noteq> Some \<lparr>offsetX = 0, offsetY = 0, scale = 5\<rparr>"
  by (simp add: zoomOut_def zoomIn_def)

text \<open>
  C7, amended: for every camera target whose scale \<open>s\<close> is at least \<open>minScale\<close> and
  at most \<open>5 / 1.3\<close> (so that neither clamp acts), \<open>zoomIn\<close> followed immediately by
  \<open>zoomOut\<close> leaves the two offsets of the target as they were and its scale equal to
  the scale before the calls within floating-point tolerance. The scale is a real number
  here, and \<open>s * 1.3 / 1.3 = s\<close> holds exactly; rounding is not part of the model. In
  double precision the last bit of the scale can differ (0.9 becomes 0.9000000000000001),
  which is why the amended statement asks for the scale only up to that tolerance.
\<close>

theorem C7_zoom_inverse:
  assumes "jsle ms (Fin (scale t))" and "scale t * 1.3 \<le> 5"
  shows "zoomOut ms (zoomIn t) = Some t"
  using assms by (cases ms) (auto simp add: zoomOut_def zoomIn_def max_def)

theorem C7_zoom_inverse_witness:
  "jsle (Fin (1 / 20)) (Fin (scale \<lparr>offsetX = 7, offsetY = -20, scale = 3 / 10\<rparr>))
   \<and> scale \<lparr>offsetX = 7, offsetY = -20, scale = 3 / 10\<rparr> * 1.3 \<le> 5
   \<and> zoomOut (Fin (1 / 20)) (zoomIn \<lparr>offsetX = 7, offsetY = -20, scale = 3 / 10\<rparr>)
       = Some \<lparr>offsetX = 7, offsetY = -20, scale = 3 / 10\<rparr>"
  using C7_zoom_inverse [of "Fin (1 / 20)" "\<lparr>offsetX = 7, offsetY = -20, scale = 3 / 10\<rparr>"]
  by simp

section \<open>Zooming at the pointer\<close>

text \<open>
  C6, as stated: from any starting camera state, the year under the pointer stays under
  the pointer. In a viewport 260 pixels wide \<open>minScale\<close> is 0 and \<open>fit\<close> sets the
  scale 0; then every year is drawn at \<open>offsetX + 210\<close>, the year under a pointer there
  is the quotient 0 / 0, and the new target is not a finite camera state.
\<close>

theorem C6_zoom_at_pointer_counterexample:
  "fit 260 600 0 100 68 [] None = Some \<lparr>offsetX = 0, offsetY = 266, scale = 0\<rparr>
   \<and> yearToX 0 \<lparr>offsetX = 0, offsetY = 266, scale = 0\<rparr> 1 = 210
   \<and> wheelZoom (minScale 260 0 100) 0 (-4) 210 \<lparr>offsetX = 0, offsetY = 266, scale = 0\<rparr> = None"
  by (simp add: fit_def fitOffsetY_def minScale_def yearToX_def wheelZoom_def jsdiv_def
      GROUP_LABEL_WIDTH_def AXIS_HEIGHT_def)

text \<open>
  C6, amended: for every wheel zoom with the zoom modifier held, at any pointer position
  and from any camera state whose scale is not 0 (with a \<open>minScale\<close> that is not NaN):
  the year that the old transform draws at the pointer's x position is drawn at the same
  x position by the new target transform, also when the new scale is clamped to
  \<open>[minScale, 5]\<close>.
\<close>

theorem C6_zoom_at_pointer:
  assumes "scale vs \<noteq> 0" and "minScale width minYear maxYear \<noteq> NaN"
  shows "\<exists>t yr. wheelZoom (minScale width minYear maxYear) minYear deltaY mouseX vs = Some t
            \<and> xToYear minYear vs mouseX = Some yr
            \<and> yearToX minYear vs yr = mouseX
            \<and> yearToX minYear t yr = mouseX"
  using assms
  by (auto simp add: minScale_cases wheelZoom_def xToYear_def yearToX_def jsdiv_def
      split: if_splits)

theorem C6_zoom_at_pointer_witness:
  "scale \<lparr>offsetX = 0, offsetY = 0, scale = 1 / 10\<rparr> \<noteq> 0
   \<and> minScale 1260 0 1000 \<noteq> NaN
   \<and> wheelZoom (minScale 1260 0 1000) 0 100 710 \<lparr>offsetX = 0, offsetY = 0, scale = 1 / 10\<rparr>
       = Some \<lparr>offsetX = 250, offsetY = 0, scale = 1 / 20\<rparr>
   \<and> xToYear 0 \<lparr>offsetX = 0, offsetY = 0, scale = 1 / 10\<rparr> 710 = Some 500
   \<and> yearToX 0 \<lparr>offsetX = 250, offsetY = 0, scale = 1 / 20\<rparr> 500 = 710"
proof -
  have a: "scale \<lparr>offsetX = 0, offsetY = 0, scale = 1 / 10\<rparr> \<noteq> 0" by simp
  have b: "minScale 1260 0 1000 \<noteq> NaN" by (simp add: minScale_cases)
  have w: "wheelZoom (minScale 1260 0 1000) 0 100 710 \<lparr>offsetX = 0, offsetY = 0, scale = 1 / 10\<rparr>
       = Some \<lparr>offsetX = 250, offsetY = 0, scale = 1 / 20\<rparr>"
    by (simp add: minScale_cases wheelZoom_def jsdiv_def GROUP_LABEL_WIDTH_def ZOOM_SPEED_def)
  have x: "xToYear 0 \<lparr>offsetX = 0, offsetY = 0, scale = 1 / 10\<rparr> 710 = Some 500"
    by (simp add: xToYear_def jsdiv_def GROUP_LABEL_WIDTH_def)
  from C6_zoom_at_pointer [OF a b, of 100 710] w a b x
  show ?thesis by auto
qed

section \<open>Clicking a badge\<close>

text \<open>
  C5: a click that hits a badge sets a target such that, with
  \<open>pad = max (0.15 * (maxYear - minYear)) 20\<close>, the year \<open>minYear - pad\<close> is drawn at the
  left edge of the plot (\<open>GROUP_LABEL_WIDTH\<close>) and the span from \<open>minYear - pad\<close> to
  \<open>maxYear + pad\<close> is as wide as the available width of the click handler
  (\<open>width - GROUP_LABEL_WIDTH - rightmostLabelWidth\<close>), whenever the solved scale lies in
  \<open>[0.05, 5]\<close> and so is not clamped. For a badge from year 100 to year 105 the pad is 20.
\<close>

theorem C5_badge_click:
  assumes "\<not> hasDragged" and "x \<ge> GROUP_LABEL_WIDTH" and "y \<ge> AXIS_HEIGHT"
    and "find (inBadge x y) rects = Some badge"
    and "jsdiv (width - GROUP_LABEL_WIDTH - b_rightmostLabelWidth badge)
           ((b_maxYear badge + padding badge - (b_minYear badge - padding badge)) * 10) = Fin s"
    and "0.05 \<le> s" and "s \<le> 5"
  shows "\<exists>t. handleClick width minYear hasDragged x y rects positioned vs prev = NewTarget (Some t)
           \<and> padding badge = max (0.15 * (b_maxYear badge - b_minYear badge)) 20
           \<and> scale t = s
           \<and> yearToX minYear t (b_minYear badge - padding badge) = GROUP_LABEL_WIDTH
           \<and> yearToX minYear t (b_maxYear badge + padding badge)
               - yearToX minYear t (b_minYear badge - padding badge)
               = width - GROUP_LABEL_WIDTH - b_rightmostLabelWidth badge
           \<and> padding (badge\<lparr>b_minYear := 100, b_maxYear := 105\<rparr>) = 20"
proof -
  let ?a = "width - GROUP_LABEL_WIDTH - b_rightmostLabelWidth badge"
  let ?lo = "b_minYear badge - padding badge"
  let ?hi = "b_maxYear badge + padding badge"
  from assms(5) have r0: "?hi - ?lo \<noteq> 0" and s: "s = ?a / ((?hi - ?lo) * 10)"
    by (auto simp add: jsdiv_def split: if_splits)
  have clamp: "fin (jsmax (Fin 0.05) (jsmin (Fin 5) (jsdiv ?a ((?hi - ?lo) * 10)))) = Some s"
    using assms(5,6,7) by simp
  let ?t = "prev\<lparr>scale := s, offsetX := - (?lo - minYear) * s * 10 - 50\<rparr>"
  have z: "zoomToBadge width minYear badge prev = Some ?t"
    using clamp by (simp add: zoomToBadge_def Let_def)
  have h: "handleClick width minYear hasDragged x y rects positioned vs prev = NewTarget (Some ?t)"
    using assms(1-4) z by (simp add: handleClick_def)
  have left: "yearToX minYear ?t ?lo = GROUP_LABEL_WIDTH"
    by (rule left_edge)
  have rs: "(?hi - ?lo) * s * 10 = ?a" unfolding s using r0 by (rule fit_equation)
  have "yearToX minYear ?t ?hi - yearToX minYear ?t ?lo = (?hi - ?lo) * scale ?t * 10"
    by (rule span_width)
  also have "scale ?t = s" by simp
  finally have wd: "yearToX minYear ?t ?hi - yearToX minYear ?t ?lo = ?a"
    using rs by (simp only:)
  have p: "padding badge = max (0.15 * (b_maxYear badge - b_minYear badge)) 20"
    by (simp add: padding_def mult.commute)
  have p2: "padding (badge\<lparr>b_minYear := 100, b_maxYear := 105\<rparr>) = 20"
    by (simp add: padding_def)
  have sc: "scale ?t = s" by simp
  show ?thesis
    using h p sc left wd p2 by (intro exI [of _ ?t] conjI)
qed

theorem C5_badge_click_witness:
  "\<not> False \<and> (305::real) \<ge> GROUP_LABEL_WIDTH \<and> (50::real) \<ge> AXIS_HEIGHT
   \<and> find (inBadge 305 50)
         [\<lparr>b_x = 300, b_y = 44, b_w = 20, b_h = 16, b_minYear = 100, b_maxYear = 105,
           b_rightmostLabelWidth = 40\<rparr>]
       = Some \<lparr>b_x = 300, b_y = 44, b_w = 20, b_h = 16, b_minYear = 100, b_maxYear = 105,
           b_rightmostLabelWidth = 40\<rparr>
   \<and> (\<exists>t. handleClick 1260 0 False 305 50
              [\<lparr>b_x = 300, b_y = 44, b_w = 20, b_h = 16, b_minYear = 100, b_maxYear = 105,
                b_rightmostLabelWidth = 40\<rparr>] []
              \<lparr>offsetX = 0, offsetY = 0, scale = 1 / 10\<rparr>
              \<lparr>offsetX = 0, offsetY = 0, scale = 1 / 10\<rparr> = NewTarget (Some t)
          \<and> scale t = 106 / 45
          \<and> yearToX 0 t (100 - 20) = GROUP_LABEL_WIDTH
          \<and> yearToX 0 t (105 + 20) - yearToX 0 t (100 - 20) = 1260 - GROUP_LABEL_WIDTH - 40)"
proof -
  let ?b = "\<lparr>b_x = 300, b_y = 44, b_w = 20, b_h = 16, b_minYear = 100, b_maxYear = 105,
           b_rightmostLabelWidth = 40\<rparr>"
  have h1: "\<not> False" by simp
  have h2: "(305::real) \<ge> GROUP_LABEL_WIDTH" by (simp add: GROUP_LABEL_WIDTH_def)
  have h3: "(50::real) \<ge> AXIS_HEIGHT" by (simp add: AXIS_HEIGHT_def)
  have h4: "find (inBadge 305 50) [?b] = Some ?b" by (simp add: inBadge_def)
  have pad: "padding ?b = 20" by (simp add: padding_def)
  have h5: "jsdiv (1260 - GROUP_LABEL_WIDTH - b_rightmostLabelWidth ?b)
              ((b_maxYear ?b + padding ?b - (b_minYear ?b - padding ?b)) * 10) = Fin (106 / 45)"
    by (simp add: pad jsdiv_def GROUP_LABEL_WIDTH_def)
  have h6: "0.05 \<le> (106 / 45 :: real)" by simp
  have h7: "(106 / 45 :: real) \<le> 5" by simp
  from C5_badge_click [OF h1 h2 h3 h4 h5 h6 h7, of 0 "[]"
      "\<lparr>offsetX = 0, offsetY = 0, scale = 1 / 10\<rparr>" "\<lparr>offsetX = 0, offsetY = 0, scale = 1 / 10\<rparr>"]
  obtain t where
    "handleClick 1260 0 False 305 50 [?b] [] \<lparr>offsetX = 0, offsetY = 0, scale = 1 / 10\<rparr>
       \<lparr>offsetX = 0, offsetY = 0, scale = 1 / 10\<rparr> = NewTarget (Some t)"
    "scale t = 106 / 45"
    "yearToX 0 t (b_minYear ?b - padding ?b) = GROUP_LABEL_WIDTH"
    "yearToX 0 t (b_maxYear ?b + padding ?b) - yearToX 0 t (b_minYear ?b - padding ?b)
       = 1260 - GROUP_LABEL_WIDTH - b_rightmostLabelWidth ?b"
    by blast
  then have "handleClick 1260 0 False 305 50 [?b] [] \<lparr>offsetX = 0, offsetY = 0, scale = 1 / 10\<rparr>
       \<lparr>offsetX = 0, offsetY = 0, scale = 1 / 10\<rparr> = NewTarget (Some t)
     \<and> scale t = 106 / 45
     \<and> yearToX 0 t (100 - 20) = GROUP_LABEL_WIDTH
     \<and> yearToX 0 t (105 + 20) - yearToX 0 t (100 - 20) = 1260 - GROUP_LABEL_WIDTH - 40"
    by (simp add: pad)
  then show ?thesis using h2 h3 h4 by blast
qed

section \<open>The vertical offset\<close>

lemma clamp_in_bounds:
  "offsetYInBounds height totalHeight
     (max (min 0 (height - AXIS_HEIGHT - totalHeight)) (min 0 v))"
  by (simp add: offsetYInBounds_def)

lemma fitOffsetY_taller:
  assumes "\<not> totalHeight - AXIS_HEIGHT \<le> height - AXIS_HEIGHT"
  shows "offsetYInBounds height totalHeight (fitOffsetY height totalHeight positioned sel)"
proof -
  have zero: "offsetYInBounds height totalHeight 0"
    by (simp add: offsetYInBounds_def)
  show ?thesis
    using assms zero clamp_in_bounds [of height totalHeight]
    by (simp add: fitOffsetY_def Let_def split: option.split)
qed

lemma fitOffsetY_centred:
  assumes "totalHeight - AXIS_HEIGHT \<le> height - AXIS_HEIGHT"
  shows "fitOffsetY height totalHeight positioned sel
           = ((height - AXIS_HEIGHT) - (totalHeight - AXIS_HEIGHT)) / 2"
  using assms by (simp add: fitOffsetY_def Let_def)

lemma fit_offsetY:
  assumes "fit width height mn mx totalHeight positioned sel = Some t"
  shows "offsetY t = fitOffsetY height totalHeight positioned sel"
  using assms by (auto simp add: fit_def Let_def split: option.splits)

lemma zoomOut_offsetY:
  assumes "zoomOut ms prev = Some t"
  shows "offsetY t = offsetY prev"
  using assms by (auto simp add: zoomOut_def)

lemma zoomToBadge_offsetY:
  assumes "zoomToBadge width mn badge prev = Some t"
  shows "offsetY t = offsetY prev"
  using assms by (auto simp add: zoomToBadge_def Let_def split: option.splits)

lemma wheelZoom_offsetY:
  assumes "wheelZoom ms mn deltaY mouseX vs = Some t"
  shows "offsetY t = offsetY vs"
  using assms by (auto simp add: wheelZoom_def Let_def split: option.splits)

text \<open>
  C8, as stated: after every camera operation the vertical offset lies in
  \<open>[min(0, viewportHeight - contentHeight), 0]\<close>, in particular after \<open>fit\<close> when the
  content is shorter than the viewport. For one group of one row (total height 68) in a
  viewport 600 pixels high, \<open>fit\<close> centres the content and sets the vertical offset to 266.
  Moreover the drag clamps to \<open>height - AXIS_HEIGHT - totalHeight\<close>, which is 40 pixels
  below \<open>viewportHeight - contentHeight\<close> as \<open>fit\<close> computes the two heights
  (\<open>height - AXIS_HEIGHT\<close> and \<open>totalHeight - AXIS_HEIGHT\<close>): for a total height of 1000 in
  that viewport a drag far upwards ends at -440, below -400.
\<close>

theorem C8_offsetY_counterexample:
  "fit 1260 600 0 1000 68 [] None = Some \<lparr>offsetX = 0, offsetY = 266, scale = 1 / 10\<rparr>
   \<and> \<not> offsetYInBounds 600 68 266
   \<and> offsetY (snd (dragMove 600 1000 \<lparr>d_x = 0, d_y = 0, d_offsetX = 0, d_offsetY = 0\<rparr>
         False 0 (-2000) \<lparr>offsetX = 0, offsetY = 0, scale = 1 / 10\<rparr>)) = -440
   \<and> (-440::real) < min 0 ((600 - AXIS_HEIGHT) - (1000 - AXIS_HEIGHT))"
  by (simp add: fit_def fitOffsetY_def minScale_cases jsdiv_def offsetYInBounds_def
      dragMove_def GROUP_LABEL_WIDTH_def AXIS_HEIGHT_def)

text \<open>
  C8, amended. Write \<open>B\<close> for the interval
  \<open>[min(0, height - AXIS_HEIGHT - totalHeight), 0]\<close>, where \<open>totalHeight\<close> is the total
  height of the layout (the axis band included). A drag and a vertical wheel pan put the
  vertical offset in \<open>B\<close>, wherever it was before. A horizontal wheel pan, \<open>zoomIn\<close>,
  \<open>zoomOut\<close> and a badge click leave the target's vertical offset as it is, and a wheel
  zoom sets it to that of the view state. \<open>fit\<close> puts it in \<open>B\<close> when the content is
  taller than the viewport, and otherwise sets it to
  \<open>(viewportHeight - contentHeight) / 2\<close>, which is not negative. Nothing is said about
  \<open>scrollToEntry\<close>.
\<close>

theorem C8_offsetY:
  "offsetYInBounds height totalHeight
     (offsetY (snd (dragMove height totalHeight dragStart hasDragged clientX clientY vs)))
   \<and> (\<not> w_zoomKey e \<and> \<not> (w_shiftKey e \<or> \<bar>w_deltaX e\<bar> > \<bar>w_deltaY e\<bar>)
        \<longrightarrow> (\<exists>t. handleWheel ms mn height totalHeight e vs prev = Some t
                 \<and> offsetYInBounds height totalHeight (offsetY t)))
   \<and> (\<not> w_zoomKey e \<and> (w_shiftKey e \<or> \<bar>w_deltaX e\<bar> > \<bar>w_deltaY e\<bar>)
        \<longrightarrow> (\<exists>t. handleWheel ms mn height totalHeight e vs prev = Some t
                 \<and> offsetY t = offsetY prev))
   \<and> (\<forall>t. w_zoomKey e \<and> handleWheel ms mn height totalHeight e vs prev = Some t
          \<longrightarrow> offsetY t = offsetY vs)
   \<and> offsetY (zoomIn prev) = offsetY prev
   \<and> (\<forall>t. zoomOut ms prev = Some t \<longrightarrow> offsetY t = offsetY prev)
   \<and> (\<forall>t. zoomToBadge width mn badge prev = Some t \<longrightarrow> offsetY t = offsetY prev)
   \<and> (\<forall>t. fit width height mn mx totalHeight positioned sel = Some t
          \<longrightarrow> (if totalHeight - AXIS_HEIGHT \<le> height - AXIS_HEIGHT
               then offsetY t = ((height - AXIS_HEIGHT) - (totalHeight - AXIS_HEIGHT)) / 2
                    \<and> 0 \<le> offsetY t
               else offsetYInBounds height totalHeight (offsetY t)))"
proof (intro conjI allI impI)
  show "offsetYInBounds height totalHeight
          (offsetY (snd (dragMove height totalHeight dragStart hasDragged clientX clientY vs)))"
    by (simp add: dragMove_def Let_def clamp_in_bounds)
next
  assume "\<not> w_zoomKey e \<and> \<not> (w_shiftKey e \<or> \<bar>w_deltaX e\<bar> > \<bar>w_deltaY e\<bar>)"
  then have "handleWheel ms mn height totalHeight e vs prev
      = Some (prev\<lparr>offsetY := max (min 0 (height - AXIS_HEIGHT - totalHeight))
                                 (min 0 (offsetY prev - w_deltaY e * SCROLL_SPEED))\<rparr>)"
    by (simp add: handleWheel_def Let_def)
  then show "\<exists>t. handleWheel ms mn height totalHeight e vs prev = Some t
                 \<and> offsetYInBounds height totalHeight (offsetY t)"
    by (simp add: clamp_in_bounds)
next
  assume "\<not> w_zoomKey e \<and> (w_shiftKey e \<or> \<bar>w_deltaX e\<bar> > \<bar>w_deltaY e\<bar>)"
  then have "handleWheel ms mn height totalHeight e vs prev
      = Some (prev\<lparr>offsetX := offsetX prev - w_deltaX e * SCROLL_SPEED\<rparr>)"
    by (auto simp add: handleWheel_def Let_def)
  then show "\<exists>t. handleWheel ms mn height totalHeight e vs prev = Some t
                 \<and> offsetY t = offsetY prev"
    by simp
next
  fix t assume "w_zoomKey e \<and> handleWheel ms mn height totalHeight e vs prev = Some t"
  then have "wheelZoom ms mn (w_deltaY e) (w_mouseX e) vs = Some t"
    by (auto simp add: handleWheel_def)
  then show "offsetY t = offsetY vs" by (rule wheelZoom_offsetY)
next
  show "offsetY (zoomIn prev) = offsetY prev"
    by (simp add: zoomIn_def)
next
  fix t assume "zoomOut ms prev = Some t"
  then show "offsetY t = offsetY prev" by (rule zoomOut_offsetY)
next
  fix t assume "zoomToBadge width mn badge prev = Some t"
  then show "offsetY t = offsetY prev" by (rule zoomToBadge_offsetY)
next
  fix t assume f: "fit width height mn mx totalHeight positioned sel = Some t"
  show "if totalHeight - AXIS_HEIGHT \<le> height - AXIS_HEIGHT
        then offsetY t = ((height - AXIS_HEIGHT) - (totalHeight - AXIS_HEIGHT)) / 2
             \<and> 0 \<le> offsetY t
        else offsetYInBounds height totalHeight (offsetY t)"
  proof (cases "totalHeight - AXIS_HEIGHT \<le> height - AXIS_HEIGHT")
    case True
    then show ?thesis
      using fit_offsetY [OF f] fitOffsetY_centred [OF True, of positioned sel] by simp
  next
    case False
    then show ?thesis
      using fit_offsetY [OF f] fitOffsetY_taller [OF False, of positioned sel] by simp
  qed
qed

text \<open>The instances: after \<open>fit\<close> has centred a content of total height 68 in a viewport
  600 pixels high (vertical offset 266), a vertical wheel pan and a drag bring the offset
  back to 0, the only point of \<open>B\<close>; a horizontal pan, \<open>zoomOut\<close> and a wheel zoom leave
  it at 266; and \<open>fit\<close> on a content of total height 1000 sets it to 0.\<close>

theorem C8_offsetY_witness:
  "fit 1260 600 0 1000 68 [] None = Some \<lparr>offsetX = 0, offsetY = 266, scale = 1 / 10\<rparr>
   \<and> handleWheel (Fin (1 / 20)) 0 600 68
          \<lparr>w_deltaX = 0, w_deltaY = 100, w_zoomKey = False, w_shiftKey = False, w_mouseX = 0\<rparr>
          \<lparr>offsetX = 0, offsetY = 266, scale = 1 / 10\<rparr>
          \<lparr>offsetX = 0, offsetY = 266, scale = 1 / 10\<rparr>
        = Some \<lparr>offsetX = 0, offsetY = 0, scale = 1 / 10\<rparr>
   \<and> offsetYInBounds 600 68 0
   \<and> offsetYInBounds 600 68
        (offsetY (snd (dragMove 600 68 \<lparr>d_x = 10, d_y = 10, d_offsetX = 0, d_offsetY = 266\<rparr>
           False 60 (-20) \<lparr>offsetX = 0, offsetY = 266, scale = 1 / 10\<rparr>)))
   \<and> (\<exists>t. handleWheel (Fin (1 / 20)) 0 600 68
          \<lparr>w_deltaX = 100, w_deltaY = 0, w_zoomKey = False, w_shiftKey = False, w_mouseX = 0\<rparr>
          \<lparr>offsetX = 0, offsetY = 266, scale = 1 / 10\<rparr>
          \<lparr>offsetX = 0, offsetY = 266, scale = 1 / 10\<rparr> = Some t \<and> offsetY t = 266)
   \<and> (\<exists>t. handleWheel (Fin (1 / 20)) 0 600 68
          \<lparr>w_deltaX = 0, w_deltaY = 4, w_zoomKey = True, w_shiftKey = False, w_mouseX = 210\<rparr>
          \<lparr>offsetX = 0, offsetY = 266, scale = 1 / 10\<rparr>
          \<lparr>offsetX = 0, offsetY = 266, scale = 1 / 10\<rparr> = Some t \<and> offsetY t = 266)
   \<and> (\<exists>t. zoomOut (Fin (1 / 20)) \<lparr>offsetX = 0, offsetY = 266, scale = 1 / 10\<rparr> = Some t
          \<and> offsetY t = 266)
   \<and> fit 1260 600 0 1000 1000 [] None = Some \<lparr>offsetX = 0, offsetY = 0, scale = 1 / 10\<rparr>
   \<and> \<not> 1000 - AXIS_HEIGHT \<le> 600 - AXIS_HEIGHT
   \<and> offsetYInBounds 600 1000 0"
proof -
  let ?p = "\<lparr>offsetX = 0, offsetY = 266, scale = 1 / 10\<rparr>"
  let ?ev = "\<lparr>w_deltaX = 0, w_deltaY = 100, w_zoomKey = False, w_shiftKey = False, w_mouseX = 0\<rparr>"
  let ?eh = "\<lparr>w_deltaX = 100, w_deltaY = 0, w_zoomKey = False, w_shiftKey = False, w_mouseX = 0\<rparr>"
  let ?ez = "\<lparr>w_deltaX = 0, w_deltaY = 4, w_zoomKey = True, w_shiftKey = False, w_mouseX = 210\<rparr>"
  let ?d = "\<lparr>d_x = 10, d_y = 10, d_offsetX = 0, d_offsetY = 266\<rparr>"
  have centred: "fit 1260 600 0 1000 68 [] None = Some ?p"
    by (simp add: fit_def fitOffsetY_def minScale_cases jsdiv_def GROUP_LABEL_WIDTH_def
        AXIS_HEIGHT_def)
  have hv: "handleWheel (Fin (1 / 20)) 0 600 68 ?ev ?p ?p
              = Some \<lparr>offsetX = 0, offsetY = 0, scale = 1 / 10\<rparr>"
    by (simp add: handleWheel_def SCROLL_SPEED_def AXIS_HEIGHT_def)
  have hz: "handleWheel (Fin (1 / 20)) 0 600 68 ?ez ?p ?p
              = Some \<lparr>offsetX = 0, offsetY = 266, scale = 9 / 100\<rparr>"
    by (simp add: handleWheel_def wheelZoom_def jsdiv_def ZOOM_SPEED_def GROUP_LABEL_WIDTH_def)
  have zo: "zoomOut (Fin (1 / 20)) ?p = Some \<lparr>offsetX = 0, offsetY = 266, scale = 1 / 13\<rparr>"
    by (simp add: zoomOut_def)
  have ft: "fit 1260 600 0 1000 1000 [] None = Some \<lparr>offsetX = 0, offsetY = 0, scale = 1 / 10\<rparr>"
    by (simp add: fit_def fitOffsetY_def minScale_cases jsdiv_def GROUP_LABEL_WIDTH_def
        AXIS_HEIGHT_def)
  have taller: "\<not> 1000 - AXIS_HEIGHT \<le> 600 - AXIS_HEIGHT"
    by (simp add: AXIS_HEIGHT_def)
  note V = C8_offsetY [where height = 600 and totalHeight = 68 and dragStart = ?d
        and hasDragged = False and clientX = 60 and clientY = "-20" and vs = ?p and prev = ?p
        and ms = "Fin (1 / 20)" and mn = 0 and e = ?ev]
  note H = C8_offsetY [where height = 600 and totalHeight = 68 and vs = ?p and prev = ?p
        and ms = "Fin (1 / 20)" and mn = 0 and e = ?eh]
  note Z = C8_offsetY [where height = 600 and totalHeight = 68 and vs = ?p and prev = ?p
        and ms = "Fin (1 / 20)" and mn = 0 and e = ?ez]
  note F = C8_offsetY [where height = 600 and totalHeight = 1000 and width = 1260
        and mn = 0 and mx = 1000 and positioned = "[]" and sel = None]
  from V hv have pan: "offsetYInBounds 600 68 0" by simp
  from V have drag: "offsetYInBounds 600 68 (offsetY (snd (dragMove 600 68 ?d False 60 (-20) ?p)))"
    by blast
  from H have hor: "\<exists>t. handleWheel (Fin (1 / 20)) 0 600 68 ?eh ?p ?p = Some t \<and> offsetY t = 266"
    by simp
  from Z hz have zoom: "\<exists>t. handleWheel (Fin (1 / 20)) 0 600 68 ?ez ?p ?p = Some t
      \<and> offsetY t = 266"
    by simp
  from V zo have out: "\<exists>t. zoomOut (Fin (1 / 20)) ?p = Some t \<and> offsetY t = 266"
    by simp
  from F ft taller have tall: "offsetYInBounds 600 1000 0" by simp
  from centred hv pan drag hor zoom out ft taller tall show ?thesis by blast
qed

section \<open>The scale range\<close>

text \<open>
  C1 says that after every camera operation, \<open>scrollToEntry\<close> among them, the scale of
  the target lies in \<open>[minScale, 5]\<close>. \<open>scrollToEntry\<close> sets the scale to 1.1 times the
  scale its neighbours need and clamps it at 5 only. Two records at the years 0 and 1000,
  45 pixels wide, share a row in a viewport 1260 pixels wide; \<open>minScale\<close> is 1/20, and
  scrolling to the second record sets the scale to 11/2000.
\<close>

theorem C1_scrollToEntry_below_minScale:
  "minScale 1260 0 1000 = Fin (1 / 20)
   \<and> scale (scrollToEntry (\<lambda>e. 45) 1260 600 0
        (computeLayout (\<lambda>e. 45) 0 \<lparr>offsetX = 0, offsetY = 0, scale = 1 / 10\<rparr>
           [\<lparr>g_key = ''g'', g_y = 40, g_height = 28\<rparr>]
           [\<lparr>l_entry = \<lparr>entry_id = ''a'', date_start = \<lparr>year = 0, era = CE\<rparr>, date_end = None,
      group_dynasty = ''g'', group_era = ''g''\<rparr>,
              l_row = 0, l_group = ''g''\<rparr>,
            \<lparr>l_entry = \<lparr>entry_id = ''b'', date_start = \<lparr>year = 1000, era = CE\<rparr>, date_end = None,
      group_dynasty = ''g'', group_era = ''g''\<rparr>,
              l_row = 0, l_group = ''g''\<rparr>])
        \<lparr>entry_id = ''b'', date_start = \<lparr>year = 1000, era = CE\<rparr>, date_end = None,
      group_dynasty = ''g'', group_era = ''g''\<rparr>
        \<lparr>offsetX = 0, offsetY = 0, scale = 1 / 10\<rparr>) = 11 / 2000
   \<and> \<not> scaleInRange (Fin (1 / 20)) (11 / 2000)"
  by (simp add: minScale_cases scrollToEntry_def neededScale_def computeLayout_def position_def
      getYear_def yearToX_def scaleInRange_def GROUP_LABEL_WIDTH_def AXIS_HEIGHT_def
      ROW_HEIGHT_def MARKER_PADDING_def OVERLAP_GAP_def)

text \<open>The other operations keep the scale in \<open>[minScale, 5]\<close>.\<close>

lemma scale_kept_zoomIn:
  assumes "scaleInRange ms (scale prev)" and "0 \<le> scale prev"
  shows "scaleInRange ms (scale (zoomIn prev))"
  using assms by (cases ms) (auto simp add: scaleInRange_def zoomIn_def min_def)

lemma scale_kept_zoomOut:
  assumes "scaleInRange ms (scale prev)" and "zoomOut ms prev = Some t"
  shows "scaleInRange ms (scale t)"
  using assms by (cases ms) (auto simp add: scaleInRange_def zoomOut_def max_def)

lemma scale_kept_drag:
  assumes "scaleInRange ms (scale vs)"
  shows "scaleInRange ms
           (scale (snd (dragMove height totalHeight dragStart hasDragged clientX clientY vs)))"
  using assms by (simp add: dragMove_def Let_def)

lemma scale_set_fit:
  assumes "fit width height mn mx totalHeight positioned sel = Some t"
  shows "scaleInRange (minScale width mn mx) (scale t)"
  using assms
  by (auto simp add: fit_def Let_def minScale_cases jsdiv_def scaleInRange_def
      split: option.splits if_splits)

lemma scale_set_wheelZoom:
  assumes "wheelZoom (minScale width mn mx) mn deltaY mouseX vs = Some t"
  shows "scaleInRange (minScale width mn mx) (scale t)"
  using assms
  by (auto simp add: wheelZoom_def Let_def minScale_cases scaleInRange_def
      split: option.splits if_splits)

lemma clamp_range:
  assumes "fin (jsmax (Fin lo) (jsmin (Fin hi) q)) = Some s" and "lo \<le> hi"
  shows "lo \<le> s \<and> s \<le> hi"
  using assms by (cases q) auto

lemma scale_set_zoomToBadge:
  assumes "zoomToBadge width mn badge prev = Some t" and "minScale width mn mx \<noteq> NaN"
  shows "scaleInRange (minScale width mn mx) (scale t)"
proof -
  from assms(1) obtain s where s: "scale t = s"
    and c: "fin (jsmax (Fin 0.05) (jsmin (Fin 5)
        (jsdiv (width - GROUP_LABEL_WIDTH - b_rightmostLabelWidth badge)
          ((b_maxYear badge + padding badge - (b_minYear badge - padding badge)) * 10)))) = Some s"
    by (auto simp add: zoomToBadge_def Let_def split: option.splits)
  from c have "0.05 \<le> s \<and> s \<le> 5"
    by (rule clamp_range) simp
  then show ?thesis
    using assms(2) s by (auto simp add: minScale_cases scaleInRange_def split: if_splits)
qed

section \<open>The row loop\<close>

declare rowLoop.simps [simp del]

lemma rowLoop_done:
  assumes "\<not> i < length events"
  shows "rowLoop mw events i l V B = (l, V, B)"
  using assms by (simp add: rowLoop.simps [of mw events i l V B])

lemma rowLoop_shown:
  assumes "i < length events" and "shown events i" and "0 < i"
  shows "rowLoop mw events i l V B =
           rowLoop mw events (Suc i) i (insert (entry_id (p_entry (events ! i))) V)
             (if Suc l < i then B @ [closingBadge mw events l i] else B)"
proof -
  have c: "p_x (events ! i) \<ge> p_x (events ! (i - 1)) + p_width (events ! (i - 1)) + OVERLAP_GAP"
    using assms(2,3) by (simp add: shown_def)
  have e: "(0 < i - l - 1) = (Suc l < i)" by auto
  show ?thesis
    using assms(1) c by (simp add: rowLoop.simps [of mw events i l V B] e)
qed

lemma rowLoop_hidden:
  assumes "i < length events" and "\<not> shown events i"
  shows "rowLoop mw events i l V B = rowLoop mw events (Suc i) l V B"
proof -
  have c: "\<not> p_x (events ! i) \<ge> p_x (events ! (i - 1)) + p_width (events ! (i - 1)) + OVERLAP_GAP"
    using assms(2) by (simp add: shown_def)
  show ?thesis
    using assms(1) c by (simp add: rowLoop.simps [of mw events i l V B])
qed

text \<open>The loop only adds to the visible set and appends to the badges it is given.\<close>

lemma rowLoop_acc:
  assumes "0 < i"
  shows "rowLoop mw events i l V B =
           (case rowLoop mw events i l {} [] of (l', V', B') \<Rightarrow> (l', V \<union> V', B @ B'))"
  using assms
proof (induction "length events - i" arbitrary: i l V B)
  case 0
  then have "\<not> i < length events" by simp
  then show ?case by (simp add: rowLoop_done)
next
  case (Suc d)
  then have i: "i < length events" and d: "d = length events - Suc i" by auto
  have pos: "0 < Suc i" by simp
  show ?case
  proof (cases "shown events i")
    case True
    let ?x = "entry_id (p_entry (events ! i))"
    let ?c = "if Suc l < i then [closingBadge mw events l i] else []"
    have b: "(if Suc l < i then B @ [closingBadge mw events l i] else B) = B @ ?c" for B
      by simp
    obtain l' V' B' where r: "rowLoop mw events (Suc i) i {} [] = (l', V', B')"
      by (cases "rowLoop mw events (Suc i) i {} []") auto
    have 1: "rowLoop mw events i l V B = (l', insert ?x V \<union> V', (B @ ?c) @ B')"
      using Suc.hyps(1) [OF d pos, of i "insert ?x V" "B @ ?c"] r
      by (simp only: rowLoop_shown [OF i True Suc.prems] b split: prod.split) simp
    have 2: "rowLoop mw events i l {} [] = (l', insert ?x {} \<union> V', ([] @ ?c) @ B')"
      using Suc.hyps(1) [OF d pos, of i "insert ?x {}" "[] @ ?c"] r
      by (simp only: rowLoop_shown [OF i True Suc.prems] b split: prod.split) simp
    show ?thesis by (simp add: 1 2)
  next
    case False
    show ?thesis
      using Suc.hyps(1) [OF d pos, of l V B]
      by (simp only: rowLoop_hidden [OF i False])
  qed
qed

lemma rowLoop_step_shown:
  assumes "i < length events" and "shown events i" and "0 < i"
  shows "rowLoop mw events i l {} [] =
           (case rowLoop mw events (Suc i) i {} [] of
              (l', V', B') \<Rightarrow>
                (l', insert (entry_id (p_entry (events ! i))) V',
                 (if Suc l < i then [closingBadge mw events l i] else []) @ B'))"
proof -
  have "rowLoop mw events i l {} [] =
          rowLoop mw events (Suc i) i {entry_id (p_entry (events ! i))}
            (if Suc l < i then [closingBadge mw events l i] else [])"
    by (simp add: rowLoop_shown [OF assms])
  also have "\<dots> = (case rowLoop mw events (Suc i) i {} [] of
              (l', V', B') \<Rightarrow>
                (l', {entry_id (p_entry (events ! i))} \<union> V',
                 (if Suc l < i then [closingBadge mw events l i] else []) @ B'))"
    by (rule rowLoop_acc) simp
  finally show ?thesis by simp
qed

text \<open>What the loop computes from index \<open>i\<close> on: the shown ids, and badges whose counts
  together with the run still open at the end make up the events that are not shown.\<close>

lemma rowLoop_visible:
  assumes "0 < i"
  shows "fst (snd (rowLoop mw events i l {} []))
           = set (map (\<lambda>k. entry_id (p_entry (events ! k)))
                   (filter (shown events) [i..<length events]))"
  using assms
proof (induction "length events - i" arbitrary: i l)
  case 0
  then have "\<not> i < length events" by simp
  then show ?case by (simp add: rowLoop_done)
next
  case (Suc d)
  then have i: "i < length events" and d: "d = length events - Suc i" by auto
  have u: "[i..<length events] = i # [Suc i..<length events]"
    using i by (simp add: upt_conv_Cons)
  show ?case
  proof (cases "shown events i")
    case True
    obtain l2 V2 B2 where r: "rowLoop mw events (Suc i) i {} [] = (l2, V2, B2)"
      by (cases "rowLoop mw events (Suc i) i {} []") auto
    have "V2 = set (map (\<lambda>k. entry_id (p_entry (events ! k)))
                   (filter (shown events) [Suc i..<length events]))"
      using Suc.hyps(1) [OF d, of i] r by simp
    then show ?thesis
      using True r by (simp add: rowLoop_step_shown [OF i True Suc.prems] u)
  next
    case False
    show ?thesis
      using Suc.hyps(1) [OF d, of l] False
      by (simp add: rowLoop_hidden [OF i False] u)
  qed
qed

lemma rowLoop_counts:
  assumes "l < i" and "i \<le> length events"
    and "rowLoop mw events i l {} [] = (l', V', B')"
  shows "l' < length events
       \<and> sum_list (map count B') + (length events - 1 - l')
           = length (filter (\<lambda>k. \<not> shown events k) [i..<length events]) + (i - 1 - l)"
  using assms
proof (induction "length events - i" arbitrary: i l l' V' B')
  case 0
  then have "\<not> i < length events" and "i = length events" by auto
  with 0 show ?case by (auto simp add: rowLoop_done)
next
  case (Suc d)
  then have i: "i < length events" and d: "d = length events - Suc i" by auto
  have pos: "0 < i" using Suc.prems(1) by simp
  have u: "[i..<length events] = i # [Suc i..<length events]"
    using i by (simp add: upt_conv_Cons)
  show ?case
  proof (cases "shown events i")
    case True
    obtain l2 V2 B2 where r: "rowLoop mw events (Suc i) i {} [] = (l2, V2, B2)"
      by (cases "rowLoop mw events (Suc i) i {} []") auto
    have ih: "l2 < length events
       \<and> sum_list (map count B2) + (length events - 1 - l2)
           = length (filter (\<lambda>k. \<not> shown events k) [Suc i..<length events]) + (Suc i - 1 - i)"
      using Suc.hyps(1) [OF d _ _ r] i by simp
    have res: "l' = l2"
      "B' = (if Suc l < i then [closingBadge mw events l i] else []) @ B2"
      using Suc.prems(3) r by (auto simp add: rowLoop_step_shown [OF i True pos])
    have c: "sum_list (map count (if Suc l < i then [closingBadge mw events l i] else []))
               = i - 1 - l"
      using Suc.prems(1) by (auto simp add: closingBadge_def)
    show ?thesis
      using ih True c by (simp add: res u) arith
  next
    case False
    have r: "rowLoop mw events (Suc i) l {} [] = (l', V', B')"
      using Suc.prems(3) by (simp add: rowLoop_hidden [OF i False])
    have ih: "l' < length events
       \<and> sum_list (map count B') + (length events - 1 - l')
           = length (filter (\<lambda>k. \<not> shown events k) [Suc i..<length events]) + (Suc i - 1 - l)"
      using Suc.hyps(1) [OF d _ _ r] i Suc.prems(1) by simp
    show ?thesis
      using ih False Suc.prems(1) by (simp add: u)
  qed
qed

text \<open>The pass over one row, started from any visible set and badge list.\<close>

lemma rowPass_acc:
  "rowPass mw events (V, B) = (V \<union> fst (rowPass mw events ({}, [])), B @ rowBadges mw events)"
proof -
  let ?x = "entry_id (p_entry (events ! 0))"
  obtain l' V' B' where r: "rowLoop mw events 1 0 {} [] = (l', V', B')"
    by (cases "rowLoop mw events 1 0 {} []") auto
  have a: "rowLoop mw events 1 0 (insert ?x V) B = (l', insert ?x V \<union> V', B @ B')" for V B
    using rowLoop_acc [of 1 mw events 0 "insert ?x V" B] r by simp
  show ?thesis
    using a [of V B] a [of "{}" "[]"] by (auto simp add: rowPass_def rowBadges_def)
qed

lemma rowPass_visible:
  assumes "events \<noteq> []"
  shows "fst (rowPass mw events ({}, [])) = shownIds events"
proof -
  let ?x = "entry_id (p_entry (events ! 0))"
  let ?f = "\<lambda>k. entry_id (p_entry (events ! k))"
  obtain l' V' B' where r: "rowLoop mw events 1 0 {} [] = (l', V', B')"
    by (cases "rowLoop mw events 1 0 {} []") auto
  have v: "V' = set (map ?f (filter (shown events) [1..<length events]))"
    using rowLoop_visible [of 1 mw events 0] r by simp
  have a: "rowLoop mw events 1 0 {?x} [] = (l', {?x} \<union> V', [] @ B')"
    using rowLoop_acc [of 1 mw events 0 "{?x}" "[]"] r by simp
  have u: "[0..<length events] = 0 # [1..<length events]"
    using assms by (simp add: upt_conv_Cons)
  have s0: "shown events 0" by (simp add: shown_def)
  have "fst (rowPass mw events ({}, [])) = insert ?x V'"
    using a by (simp add: rowPass_def)
  also have "\<dots> = shownIds events"
    using s0 by (simp add: shownIds_def u v)
  finally show ?thesis .
qed

lemma rowBadges_count:
  assumes "events \<noteq> []"
  shows "sum_list (map count (rowBadges mw events))
           = length (filter (\<lambda>k. \<not> shown events k) [0..<length events])"
proof -
  let ?x = "entry_id (p_entry (events ! 0))"
  obtain l' V' B' where r: "rowLoop mw events 1 0 {} [] = (l', V', B')"
    by (cases "rowLoop mw events 1 0 {} []") auto
  have n: "1 \<le> length events" using assms by (cases events) auto
  have c: "l' < length events
       \<and> sum_list (map count B') + (length events - 1 - l')
           = length (filter (\<lambda>k. \<not> shown events k) [1..<length events]) + (1 - 1 - 0)"
    using rowLoop_counts [OF _ n r] by simp
  have a: "rowLoop mw events 1 0 {?x} [] = (l', {?x} \<union> V', [] @ B')"
    using rowLoop_acc [of 1 mw events 0 "{?x}" "[]"] r by simp
  have u: "[0..<length events] = 0 # [1..<length events]"
    using assms by (simp add: upt_conv_Cons)
  have s0: "shown events 0" by (simp add: shown_def)
  have "sum_list (map count (rowBadges mw events))
          = sum_list (map count B') + (length events - 1 - l')"
    using a by (simp add: rowBadges_def rowPass_def trailingBadge_def)
  then show ?thesis using c s0 by (simp add: u) arith
qed

text \<open>Every badge of the loop closes a hidden run; at the end of the loop the last visible
  index is shown and nothing after it is.\<close>

lemma rowLoop_badges:
  assumes "l < i" and "i \<le> length events" and "shown events l"
    and "list_all (\<lambda>m. \<not> shown events m) [Suc l..<i]"
    and "rowLoop mw events i l {} [] = (l', V', B')"
  shows "shown events l' \<and> l' < length events
       \<and> list_all (\<lambda>m. \<not> shown events m) [Suc l'..<length events]
       \<and> (\<forall>b\<in>set B'. \<exists>j k. closesRun events j k \<and> b = closingBadge mw events j k)"
  using assms
proof (induction "length events - i" arbitrary: i l l' V' B')
  case 0
  then have "\<not> i < length events" and "i = length events" by auto
  with 0 show ?case by (auto simp add: rowLoop_done)
next
  case (Suc d)
  then have i: "i < length events" and d: "d = length events - Suc i" by auto
  have pos: "0 < i" using Suc.prems(1) by simp
  show ?case
  proof (cases "shown events i")
    case True
    obtain l2 V2 B2 where r: "rowLoop mw events (Suc i) i {} [] = (l2, V2, B2)"
      by (cases "rowLoop mw events (Suc i) i {} []") auto
    have ih: "shown events l2 \<and> l2 < length events
       \<and> list_all (\<lambda>m. \<not> shown events m) [Suc l2..<length events]
       \<and> (\<forall>b\<in>set B2. \<exists>j k. closesRun events j k \<and> b = closingBadge mw events j k)"
      using Suc.hyps(1) [OF d _ _ True _ r] i by simp
    have res: "l' = l2"
      "B' = (if Suc l < i then [closingBadge mw events l i] else []) @ B2"
      using Suc.prems(5) r by (auto simp add: rowLoop_step_shown [OF i True pos])
    have c: "Suc l < i \<Longrightarrow> closesRun events l i"
      using i True Suc.prems(3,4) by (simp add: closesRun_def)
    show ?thesis
      using ih c by (auto simp add: res)
  next
    case False
    have r: "rowLoop mw events (Suc i) l {} [] = (l', V', B')"
      using Suc.prems(5) by (simp add: rowLoop_hidden [OF i False])
    have h: "list_all (\<lambda>m. \<not> shown events m) [Suc l..<Suc i]"
      using Suc.prems(1,4) False by simp
    show ?thesis
      using Suc.hyps(1) [OF d _ _ Suc.prems(3) h r] i Suc.prems(1) by simp
  qed
qed

lemma rowBadges_char:
  assumes "events \<noteq> []" and "b \<in> set (rowBadges mw events)"
  shows "(\<exists>j k. closesRun events j k \<and> b = closingBadge mw events j k)
       \<or> (\<exists>j. trailingRun events j \<and> b = trailingBadge mw events j)"
proof -
  let ?x = "entry_id (p_entry (events ! 0))"
  obtain l' V' B' where r: "rowLoop mw events 1 0 {} [] = (l', V', B')"
    by (cases "rowLoop mw events 1 0 {} []") auto
  have n: "1 \<le> length events" using assms(1) by (cases events) auto
  have s0: "shown events 0" by (simp add: shown_def)
  have c: "shown events l' \<and> l' < length events
       \<and> list_all (\<lambda>m. \<not> shown events m) [Suc l'..<length events]
       \<and> (\<forall>b\<in>set B'. \<exists>j k. closesRun events j k \<and> b = closingBadge mw events j k)"
    using rowLoop_badges [OF _ n s0 _ r] by simp
  have a: "rowLoop mw events 1 0 {?x} [] = (l', {?x} \<union> V', [] @ B')"
    using rowLoop_acc [of 1 mw events 0 "{?x}" "[]"] r by simp
  have rb: "rowBadges mw events
              = (if 0 < length events - 1 - l' then B' @ [trailingBadge mw events l'] else B')"
    using a by (simp add: rowBadges_def rowPass_def)
  show ?thesis
  proof (cases "b \<in> set B'")
    case True
    with c show ?thesis by blast
  next
    case False
    with assms(2) rb have t: "0 < length events - 1 - l'" and b: "b = trailingBadge mw events l'"
      by (auto split: if_splits)
    from t c have "trailingRun events l'" by (simp add: trailingRun_def)
    with b show ?thesis by blast
  qed
qed

lemma rowBadges_afterPos:
  assumes "events \<noteq> []" and "b \<in> set (rowBadges mw events)"
  shows "afterPos b \<in> set events"
  using rowBadges_char [OF assms]
  by (auto simp add: closesRun_def trailingRun_def closingBadge_def trailingBadge_def)

section \<open>The rows\<close>

lemma rowPush_keys:
  "set (map fst (rowPush p m)) = insert (rk p) (set (map fst m))"
proof (induction m)
  case Nil
  then show ?case by simp
next
  case (Cons a m)
  obtain k es where a: "a = (k, es)" by (cases a)
  show ?case
  proof (cases "k = rk p")
    case True
    then show ?thesis by (simp add: a)
  next
    case False
    then show ?thesis using Cons by (simp add: a insert_commute)
  qed
qed

lemma rowPush_distinct:
  assumes "distinct (map fst m)"
  shows "distinct (map fst (rowPush p m))"
  using assms
proof (induction m)
  case Nil
  then show ?case by simp
next
  case (Cons a m)
  obtain k es where a: "a = (k, es)" by (cases a)
  show ?case
  proof (cases "k = rk p")
    case True
    with Cons.prems a show ?thesis by simp
  next
    case False
    have "k \<notin> set (map fst (rowPush p m))"
      using Cons.prems a False by (simp only: rowPush_keys) auto
    with Cons a False show ?thesis by simp
  qed
qed

lemma rowPush_lookup:
  "map_of (rowPush p m) k =
     (if k = rk p
      then Some (case map_of m k of None \<Rightarrow> [p] | Some es \<Rightarrow> es @ [p])
      else map_of m k)"
proof (induction m)
  case Nil
  then show ?case by simp
next
  case (Cons a m)
  obtain k' es where a: "a = (k', es)" by (cases a)
  show ?case
  proof (cases "k' = rk p")
    case True
    then show ?thesis by (simp add: a)
  next
    case False
    then show ?thesis using Cons by (auto simp add: a)
  qed
qed

lemma rowEvents_snoc: "rowEvents (ps @ [p]) = rowPush p (rowEvents ps)"
  by (simp add: rowEvents_def)

lemma rowEvents_distinct: "distinct (map fst (rowEvents ps))"
proof (induction ps rule: rev_induct)
  case Nil
  then show ?case by (simp add: rowEvents_def)
next
  case (snoc p ps)
  then show ?case by (simp only: rowEvents_snoc rowPush_distinct)
qed

lemma rowEvents_lookup:
  "map_of (rowEvents ps) k =
     (if filter (\<lambda>p. rk p = k) ps = [] then None else Some (filter (\<lambda>p. rk p = k) ps))"
proof (induction ps rule: rev_induct)
  case Nil
  then show ?case by (simp add: rowEvents_def)
next
  case (snoc p ps)
  then show ?case by (auto simp add: rowEvents_snoc rowPush_lookup)
qed

text \<open>Each row holds the events of its key, in the order of the positioned events, and
  is not empty.\<close>

lemma rowEvents_row:
  assumes "(k, es) \<in> set (rowEvents ps)"
  shows "es = filter (\<lambda>p. rk p = k) ps \<and> es \<noteq> []"
proof -
  have "map_of (rowEvents ps) k = Some es"
    using assms rowEvents_distinct [of ps] by simp
  then show ?thesis
    by (auto simp add: rowEvents_lookup split: if_splits)
qed

text \<open>Every hidden run closed between two shown events gets its badge.\<close>

lemma rowLoop_complete:
  assumes "l < i" and "i \<le> length events" and "shown events l"
    and "list_all (\<lambda>m. \<not> shown events m) [Suc l..<i]"
    and "rowLoop mw events i l {} [] = (l', V', B')"
    and "closesRun events j k" and "i \<le> k" and "j = l \<or> i \<le> j"
  shows "closingBadge mw events j k \<in> set B'"
  using assms
proof (induction "length events - i" arbitrary: i l l' V' B')
  case 0
  then have "length events \<le> k" by simp
  with "0.prems"(6) show ?case by (simp add: closesRun_def)
next
  case (Suc d)
  then have i: "i < length events" and d: "d = length events - Suc i" by auto
  have pos: "0 < i" using Suc.prems(1) by simp
  have cr: "Suc j < k" "k < length events" "shown events j" "shown events k"
    "\<forall>m. Suc j \<le> m \<and> m < k \<longrightarrow> \<not> shown events m"
    using Suc.prems(6) by (auto simp add: closesRun_def list_all_iff)
  have hid: "\<forall>m. Suc l \<le> m \<and> m < i \<longrightarrow> \<not> shown events m"
    using Suc.prems(4) by (auto simp add: list_all_iff)
  show ?case
  proof (cases "shown events i")
    case True
    obtain l2 V2 B2 where r: "rowLoop mw events (Suc i) i {} [] = (l2, V2, B2)"
      by (cases "rowLoop mw events (Suc i) i {} []") auto
    have res: "B' = (if Suc l < i then [closingBadge mw events l i] else []) @ B2"
      using Suc.prems(5) r by (auto simp add: rowLoop_step_shown [OF i True pos])
    show ?thesis
    proof (cases "k = i")
      case ki: True
      have "j = l"
      proof (rule ccontr)
        assume "j \<noteq> l"
        with Suc.prems(8) have "i \<le> j" by simp
        with cr(1) ki show False by simp
      qed
      with cr(1) ki res show ?thesis by simp
    next
      case False
      with Suc.prems(7) have k: "Suc i \<le> k" by simp
      have "i \<le> j"
      proof (rule ccontr)
        assume "\<not> i \<le> j"
        then have "Suc j \<le> i \<and> i < k" using k by simp
        with cr(5) True show False by blast
      qed
      then have j: "j = i \<or> Suc i \<le> j" by auto
      have "closingBadge mw events j k \<in> set B2"
        using Suc.hyps(1) [OF d _ _ True _ r Suc.prems(6) k j] i by simp
      then show ?thesis by (simp add: res)
    qed
  next
    case False
    have r: "rowLoop mw events (Suc i) l {} [] = (l', V', B')"
      using Suc.prems(5) by (simp add: rowLoop_hidden [OF i False])
    have h: "list_all (\<lambda>m. \<not> shown events m) [Suc l..<Suc i]"
      using Suc.prems(1,4) False by simp
    have k: "Suc i \<le> k"
      using Suc.prems(7) cr(4) False by (cases "k = i") auto
    have j: "j = l \<or> Suc i \<le> j"
      using Suc.prems(8) cr(3) False by (cases "j = i") auto
    show ?thesis
      using Suc.hyps(1) [OF d _ _ Suc.prems(3) h r Suc.prems(6) k j] i Suc.prems(1) by simp
  qed
qed

lemma rowBadges_complete:
  assumes "closesRun events j k"
  shows "closingBadge mw events j k \<in> set (rowBadges mw events)"
proof -
  let ?x = "entry_id (p_entry (events ! 0))"
  obtain l' V' B' where r: "rowLoop mw events 1 0 {} [] = (l', V', B')"
    by (cases "rowLoop mw events 1 0 {} []") auto
  have n: "1 \<le> length events" and k: "1 \<le> k"
    using assms by (auto simp add: closesRun_def)
  have s0: "shown events 0" by (simp add: shown_def)
  have j: "j = 0 \<or> 1 \<le> j" by auto
  have c: "closingBadge mw events j k \<in> set B'"
    using rowLoop_complete [OF _ n s0 _ r assms k j] by simp
  have a: "rowLoop mw events 1 0 {?x} [] = (l', {?x} \<union> V', [] @ B')"
    using rowLoop_acc [of 1 mw events 0 "{?x}" "[]"] r by simp
  have "rowBadges mw events
              = (if 0 < length events - 1 - l' then B' @ [trailingBadge mw events l'] else B')"
    using a by (simp add: rowBadges_def rowPass_def)
  with c show ?thesis by simp
qed

section \<open>The pass over all rows\<close>

lemma cullRows_fold:
  "foldl (\<lambda>acc r. rowPass mw (snd r) acc) (V, B) rows =
     (V \<union> (\<Union>r\<in>set rows. fst (rowPass mw (snd r) ({}, []))),
      B @ concat (map (\<lambda>r. rowBadges mw (snd r)) rows))"
proof (induction rows arbitrary: V B)
  case Nil
  then show ?case by simp
next
  case (Cons r rows)
  show ?case
    by (simp add: rowPass_acc [of mw "snd r" V B] Cons.IH Un_assoc)
qed

lemma hiddenBadges_rows:
  "hiddenBadges mw ps = concat (map (\<lambda>r. rowBadges mw (snd r)) (rowEvents ps))"
  by (simp add: hiddenBadges_def cullRows_def cullRows_fold)

lemma cullRows_visible:
  "fst (cullRows mw ps) = (\<Union>r\<in>set (rowEvents ps). shownIds (snd r))"
proof -
  have "fst (rowPass mw (snd r) ({}, [])) = shownIds (snd r)" if "r \<in> set (rowEvents ps)" for r
  proof -
    from that have "(fst r, snd r) \<in> set (rowEvents ps)" by simp
    then have "snd r \<noteq> []" using rowEvents_row by blast
    then show ?thesis by (rule rowPass_visible)
  qed
  then show ?thesis by (simp add: cullRows_def cullRows_fold)
qed

section \<open>Three point records in one group\<close>

declare findRow.simps [simp del]

lemma findRow_stay:
  assumes "\<not> (row < length rows \<and> rows ! row > limit)"
  shows "findRow rows limit row = row"
  using assms by (auto simp add: findRow.simps [of rows limit row])

lemma findRow_next:
  assumes "row < length rows" and "rows ! row > limit"
  shows "findRow rows limit row = findRow rows limit (Suc row)"
  using assms by (simp add: findRow.simps [of rows limit row])

lemma pointRecord_id: "entry_id (pointRecord i y) = i"
  by (simp add: pointRecord_def)

lemma pointRecord_year: "getYear (pointRecord i y) isEnd = y"
  by (simp add: pointRecord_def getYear_def)

lemma pointRecord_key: "getGroupKey mode (pointRecord i y) = ''g''"
  by (cases mode) (simp_all add: pointRecord_def getGroupKey_def)

lemma pointRecord_point: "date_end (pointRecord i y) = None"
  by (simp add: pointRecord_def)

lemma yearOr_point:
  assumes "y \<noteq> 0"
  shows "yearOr (pointRecord i y) = y"
  using assms by (simp add: yearOr_def pointRecord_year)

text \<open>A point record with a 40 pixel label occupies its row for 8 years, and the gap is
  one year.\<close>

lemma packEntry_point:
  assumes "mw (pointRecord i y) = 40"
  shows "packEntry mw k (rows, les) (pointRecord i y) =
           ((if findRow rows (y - 1) 0 < length rows
             then rows[findRow rows (y - 1) 0 := y + 9]
             else rows @ [y + 9]),
            les @ [\<lparr>l_entry = pointRecord i y, l_row = findRow rows (y - 1) 0, l_group = k\<rparr>])"
  using assms
  by (simp add: packEntry_def pixelsToYears_def LAYOUT_SCALE_def pointRecord_year
      pointRecord_point Let_def add.commute [of 9 y])

lemma packEntry_point_rows:
  "length (fst (packEntry mw k (rows, les) (pointRecord i y)))
     = (if findRow rows (y - 1) 0 < length rows then length rows else Suc (length rows))"
  by (simp add: packEntry_def pixelsToYears_def LAYOUT_SCALE_def pointRecord_year Let_def)

lemma packEntry_point_entries:
  "snd (packEntry mw k (rows, les) (pointRecord i y))
     = les @ [\<lparr>l_entry = pointRecord i y, l_row = findRow rows (y - 1) 0, l_group = k\<rparr>]"
  by (simp add: packEntry_def pixelsToYears_def LAYOUT_SCALE_def pointRecord_year Let_def)

lemma collect_three:
  "fst (collectGroups mode [pointRecord ia ya, pointRecord ib yb, pointRecord ic yc])
     = [(''g'', [pointRecord ia ya, pointRecord ib yb, pointRecord ic yc])]"
  by (simp add: collectGroups_def pointRecord_key)

lemma stableLayout_three:
  assumes "ya \<le> yb" and "yb \<le> yc"
  shows "stableLayout mw mode [pointRecord ia ya, pointRecord ib yb, pointRecord ic yc]
       = \<lparr>sl_layoutEntries =
            snd (foldl (packEntry mw ''g'') ([], [])
                   [pointRecord ia ya, pointRecord ib yb, pointRecord ic yc]),
          sl_groups =
            [\<lparr>g_key = ''g'', g_y = 40,
              g_height = real (max (length (fst (foldl (packEntry mw ''g'') ([], [])
                   [pointRecord ia ya, pointRecord ib yb, pointRecord ic yc]))) 1) * 28\<rparr>],
          sl_totalHeight = 40 + real (max (length (fst (foldl (packEntry mw ''g'') ([], [])
                   [pointRecord ia ya, pointRecord ib yb, pointRecord ic yc]))) 1) * 28\<rparr>"
proof -
  let ?es = "[pointRecord ia ya, pointRecord ib yb, pointRecord ic yc]"
  have keys: "sortedGroupKeys (fst (collectGroups mode ?es)) (snd (collectGroups mode ?es)) = [''g'']"
    by (simp add: sortedGroupKeys_def collect_three)
  have sorted: "sort_key (\<lambda>e. getYear e False) ?es = ?es"
    using assms by (simp add: pointRecord_year)
  have pg: "packGroup mw ''g'' ?es = foldl (packEntry mw ''g'') ([], []) ?es"
    by (simp only: packGroup_def sorted)
  have laid: "layoutGroups mw (fst (collectGroups mode ?es)) [''g'']
      = (snd (foldl (packEntry mw ''g'') ([], []) ?es),
         [(''g'', max (length (fst (foldl (packEntry mw ''g'') ([], []) ?es))) 1)])"
    by (simp add: layoutGroups_def collect_three pg Let_def)
  show ?thesis
    by (simp add: stableLayout_def keys laid Let_def AXIS_HEIGHT_def ROW_HEIGHT_def)
qed

text \<open>Records at 100, 110 and 900 with 40 pixel labels share row 0: the row of the record
  at 100 is free again at the year 109, and the record at 110 needs it from 109 on.\<close>

lemma layout_100_110_900:
  assumes "mw (pointRecord ia 100) = 40" and "mw (pointRecord ib 110) = 40"
  shows "stableLayout mw mode [pointRecord ia 100, pointRecord ib 110, pointRecord ic 900]
       = \<lparr>sl_layoutEntries =
            [\<lparr>l_entry = pointRecord ia 100, l_row = 0, l_group = ''g''\<rparr>,
             \<lparr>l_entry = pointRecord ib 110, l_row = 0, l_group = ''g''\<rparr>,
             \<lparr>l_entry = pointRecord ic 900, l_row = 0, l_group = ''g''\<rparr>],
          sl_groups = [\<lparr>g_key = ''g'', g_y = 40, g_height = 28\<rparr>],
          sl_totalHeight = 68\<rparr>"
proof -
  let ?a = "pointRecord ia 100" and ?b = "pointRecord ib 110" and ?c = "pointRecord ic 900"
  have f0: "findRow [] (99::real) 0 = 0" by (simp add: findRow_stay)
  have 1: "packEntry mw ''g'' ([], []) ?a
             = ([109], [\<lparr>l_entry = ?a, l_row = 0, l_group = ''g''\<rparr>])"
    using f0 assms(1) by (simp add: packEntry_point)
  have f1: "findRow [109::real] 109 0 = 0" by (simp add: findRow_stay)
  have 2: "packEntry mw ''g'' ([109], [\<lparr>l_entry = ?a, l_row = 0, l_group = ''g''\<rparr>]) ?b
             = ([119], [\<lparr>l_entry = ?a, l_row = 0, l_group = ''g''\<rparr>,
                        \<lparr>l_entry = ?b, l_row = 0, l_group = ''g''\<rparr>])"
    using f1 assms(2) by (simp add: packEntry_point)
  have f2: "findRow [119::real] 899 0 = 0" by (simp add: findRow_stay)
  have 3: "length (fst (packEntry mw ''g'' ([119], [\<lparr>l_entry = ?a, l_row = 0, l_group = ''g''\<rparr>,
                        \<lparr>l_entry = ?b, l_row = 0, l_group = ''g''\<rparr>]) ?c)) = 1"
    using f2 by (simp add: packEntry_point_rows)
  have 4: "snd (packEntry mw ''g'' ([119], [\<lparr>l_entry = ?a, l_row = 0, l_group = ''g''\<rparr>,
                        \<lparr>l_entry = ?b, l_row = 0, l_group = ''g''\<rparr>]) ?c)
             = [\<lparr>l_entry = ?a, l_row = 0, l_group = ''g''\<rparr>,
                \<lparr>l_entry = ?b, l_row = 0, l_group = ''g''\<rparr>,
                \<lparr>l_entry = ?c, l_row = 0, l_group = ''g''\<rparr>]"
    using f2 by (simp add: packEntry_point_entries)
  show ?thesis
    by (simp add: stableLayout_three 1 2 3 4)
qed

text \<open>Records at 100, 105 and 900 with 40 pixel labels do not share a row: the record at
  105 needs its row from the year 104 on and opens row 1.\<close>

lemma layout_100_105_900:
  assumes "mw (pointRecord ia 100) = 40" and "mw (pointRecord ib 105) = 40"
  shows "stableLayout mw mode [pointRecord ia 100, pointRecord ib 105, pointRecord ic 900]
       = \<lparr>sl_layoutEntries =
            [\<lparr>l_entry = pointRecord ia 100, l_row = 0, l_group = ''g''\<rparr>,
             \<lparr>l_entry = pointRecord ib 105, l_row = 1, l_group = ''g''\<rparr>,
             \<lparr>l_entry = pointRecord ic 900, l_row = 0, l_group = ''g''\<rparr>],
          sl_groups = [\<lparr>g_key = ''g'', g_y = 40, g_height = 56\<rparr>],
          sl_totalHeight = 96\<rparr>"
proof -
  let ?a = "pointRecord ia 100" and ?b = "pointRecord ib 105" and ?c = "pointRecord ic 900"
  have f0: "findRow [] (99::real) 0 = 0" by (simp add: findRow_stay)
  have 1: "packEntry mw ''g'' ([], []) ?a
             = ([109], [\<lparr>l_entry = ?a, l_row = 0, l_group = ''g''\<rparr>])"
    using f0 assms(1) by (simp add: packEntry_point)
  have "findRow [109::real] 104 0 = findRow [109] 104 (Suc 0)"
    by (rule findRow_next) simp_all
  then have f1: "findRow [109::real] 104 0 = Suc 0" by (simp add: findRow_stay)
  have 2: "packEntry mw ''g'' ([109], [\<lparr>l_entry = ?a, l_row = 0, l_group = ''g''\<rparr>]) ?b
             = ([109, 114], [\<lparr>l_entry = ?a, l_row = 0, l_group = ''g''\<rparr>,
                        \<lparr>l_entry = ?b, l_row = Suc 0, l_group = ''g''\<rparr>])"
    using f1 assms(2) by (simp add: packEntry_point)
  have f2: "findRow [109::real, 114] 899 0 = 0" by (simp add: findRow_stay)
  have 3: "length (fst (packEntry mw ''g'' ([109, 114], [\<lparr>l_entry = ?a, l_row = 0, l_group = ''g''\<rparr>,
                        \<lparr>l_entry = ?b, l_row = Suc 0, l_group = ''g''\<rparr>]) ?c)) = 2"
    using f2 by (simp add: packEntry_point_rows)
  have 4: "snd (packEntry mw ''g'' ([109, 114], [\<lparr>l_entry = ?a, l_row = 0, l_group = ''g''\<rparr>,
                        \<lparr>l_entry = ?b, l_row = Suc 0, l_group = ''g''\<rparr>]) ?c)
             = [\<lparr>l_entry = ?a, l_row = 0, l_group = ''g''\<rparr>,
                \<lparr>l_entry = ?b, l_row = Suc 0, l_group = ''g''\<rparr>,
                \<lparr>l_entry = ?c, l_row = 0, l_group = ''g''\<rparr>]"
    using f2 by (simp add: packEntry_point_entries)
  show ?thesis
    by (simp add: stableLayout_three 1 2 3 4)
qed

section \<open>The pass over small rows\<close>

lemma rowPass_single:
  "rowPass mw [p] ({}, []) = ({entry_id (p_entry p)}, [])"
  by (simp add: rowPass_def rowLoop_done)

lemma rowPass_pair_shown:
  assumes "shown [p, q] (Suc 0)"
  shows "rowPass mw [p, q] ({}, []) = ({entry_id (p_entry p), entry_id (p_entry q)}, [])"
proof -
  have "rowLoop mw [p, q] (Suc 0) 0 {entry_id (p_entry p)} []
          = rowLoop mw [p, q] (Suc (Suc 0)) (Suc 0)
              {entry_id (p_entry q), entry_id (p_entry p)} []"
    using assms by (simp add: rowLoop_shown)
  also have "\<dots> = (Suc 0, {entry_id (p_entry q), entry_id (p_entry p)}, [])"
    by (simp add: rowLoop_done)
  finally show ?thesis by (simp add: rowPass_def insert_commute)
qed

lemma rowPass_fold_middle:
  assumes "\<not> shown [p, q, r] (Suc 0)" and "shown [p, q, r] (Suc (Suc 0))"
  shows "rowPass mw [p, q, r] ({}, [])
           = ({entry_id (p_entry p), entry_id (p_entry r)}, [closingBadge mw [p, q, r] 0 2])"
proof -
  let ?E = "[p, q, r]"
  have "rowLoop mw ?E (Suc 0) 0 {entry_id (p_entry p)} []
          = rowLoop mw ?E (Suc (Suc 0)) 0 {entry_id (p_entry p)} []"
    using assms(1) by (simp add: rowLoop_hidden)
  also have "\<dots> = rowLoop mw ?E (Suc (Suc (Suc 0))) (Suc (Suc 0))
                      {entry_id (p_entry r), entry_id (p_entry p)}
                      [closingBadge mw ?E 0 (Suc (Suc 0))]"
    using assms(2) by (simp add: rowLoop_shown)
  also have "\<dots> = (Suc (Suc 0), {entry_id (p_entry r), entry_id (p_entry p)},
                     [closingBadge mw ?E 0 (Suc (Suc 0))])"
    by (simp add: rowLoop_done)
  finally show ?thesis
    by (simp add: rowPass_def insert_commute numeral_2_eq_2)
qed

lemma position_point:
  "p_entry (position mw mn vs groups \<lparr>l_entry = pointRecord i y, l_row = r, l_group = g\<rparr>)
     = pointRecord i y"
  "p_x (position mw mn vs groups \<lparr>l_entry = pointRecord i y, l_row = r, l_group = g\<rparr>)
     = yearToX mn vs y"
  "p_width (position mw mn vs groups \<lparr>l_entry = pointRecord i y, l_row = r, l_group = g\<rparr>)
     = mw (pointRecord i y)"
  "rk (position mw mn vs groups \<lparr>l_entry = pointRecord i y, l_row = r, l_group = g\<rparr>) = (g, r)"
  by (simp_all add: position_def pointRecord_year pointRecord_point rk_def Let_def)

lemma single_row:
  assumes "rk a = k" and "rk b = k" and "rk c = k"
  shows "rowEvents [a, b, c] = [(k, [a, b, c])]"
  using assms by (simp add: rowEvents_def)

lemma two_rows:
  assumes "rk a = k" and "rk b = k'" and "rk c = k" and "k \<noteq> k'"
  shows "rowEvents [a, b, c] = [(k, [a, c]), (k', [b])]"
  using assms by (simp add: rowEvents_def)

text \<open>The positioned events of the two record sets.\<close>

lemma positioned_100_110_900:
  assumes "mw (pointRecord ia 100) = 40" and "mw (pointRecord ib 110) = 40"
  shows "positionedEvents mw mode mn vs
           [pointRecord ia 100, pointRecord ib 110, pointRecord ic 900]
       = [position mw mn vs [\<lparr>g_key = ''g'', g_y = 40, g_height = 28\<rparr>]
            \<lparr>l_entry = pointRecord ia 100, l_row = 0, l_group = ''g''\<rparr>,
          position mw mn vs [\<lparr>g_key = ''g'', g_y = 40, g_height = 28\<rparr>]
            \<lparr>l_entry = pointRecord ib 110, l_row = 0, l_group = ''g''\<rparr>,
          position mw mn vs [\<lparr>g_key = ''g'', g_y = 40, g_height = 28\<rparr>]
            \<lparr>l_entry = pointRecord ic 900, l_row = 0, l_group = ''g''\<rparr>]"
  by (simp add: positionedEvents_def layout_100_110_900 [OF assms] computeLayout_def)

lemma positioned_100_105_900:
  assumes "mw (pointRecord ia 100) = 40" and "mw (pointRecord ib 105) = 40"
  shows "positionedEvents mw mode mn vs
           [pointRecord ia 100, pointRecord ib 105, pointRecord ic 900]
       = [position mw mn vs [\<lparr>g_key = ''g'', g_y = 40, g_height = 56\<rparr>]
            \<lparr>l_entry = pointRecord ia 100, l_row = 0, l_group = ''g''\<rparr>,
          position mw mn vs [\<lparr>g_key = ''g'', g_y = 40, g_height = 56\<rparr>]
            \<lparr>l_entry = pointRecord ib 105, l_row = 1, l_group = ''g''\<rparr>,
          position mw mn vs [\<lparr>g_key = ''g'', g_y = 40, g_height = 56\<rparr>]
            \<lparr>l_entry = pointRecord ic 900, l_row = 0, l_group = ''g''\<rparr>]"
  by (simp add: positionedEvents_def layout_100_105_900 [OF assms] computeLayout_def)

text \<open>The pass on the records at 100, 110 and 900: the record at 110 is hidden behind the
  record at 100 while 100 years are fewer than 45 pixels, and the record at 900 closes
  the run.\<close>

lemma cull_100_110_900:
  assumes "45 \<le> 7900 * scale vs" and "scale vs < 1 / 10"
    and "mw (pointRecord ia 100) = 40" and "mw (pointRecord ib 110) = 40"
  shows "cullRows mw (positionedEvents mw mode mn vs
           [pointRecord ia 100, pointRecord ib 110, pointRecord ic 900])
         = ({ia, ic},
            [closingBadge mw (positionedEvents mw mode mn vs
               [pointRecord ia 100, pointRecord ib 110, pointRecord ic 900]) 0 2])"
proof -
  let ?G = "[\<lparr>g_key = ''g'', g_y = 40, g_height = 28\<rparr>]"
  let ?a = "position mw mn vs ?G \<lparr>l_entry = pointRecord ia 100, l_row = 0, l_group = ''g''\<rparr>"
  let ?b = "position mw mn vs ?G \<lparr>l_entry = pointRecord ib 110, l_row = 0, l_group = ''g''\<rparr>"
  let ?c = "position mw mn vs ?G \<lparr>l_entry = pointRecord ic 900, l_row = 0, l_group = ''g''\<rparr>"
  have P: "positionedEvents mw mode mn vs
             [pointRecord ia 100, pointRecord ib 110, pointRecord ic 900] = [?a, ?b, ?c]"
    using assms(3,4) by (rule positioned_100_110_900)
  have xb: "p_x ?b - p_x ?a = 100 * scale vs"
    using span_width [of mn vs 110 100] by (simp add: position_point)
  have xc: "p_x ?c - p_x ?b = 7900 * scale vs"
    using span_width [of mn vs 900 110] by (simp add: position_point)
  have wa: "p_width ?a = 40" and wb: "p_width ?b = 40"
    using assms(3,4) by (simp_all add: position_point)
  have h1: "\<not> shown [?a, ?b, ?c] (Suc 0)"
    using xb wa assms(2) by (simp add: shown_def OVERLAP_GAP_def)
  have s2: "shown [?a, ?b, ?c] (Suc (Suc 0))"
    using xc wb assms(1) by (simp add: shown_def OVERLAP_GAP_def)
  have pass: "rowPass mw [?a, ?b, ?c] ({}, []) = ({ia, ic}, [closingBadge mw [?a, ?b, ?c] 0 2])"
    using rowPass_fold_middle [OF h1 s2, of mw]
    by (simp add: position_point pointRecord_id)
  have rows: "rowEvents [?a, ?b, ?c] = [((''g'', 0), [?a, ?b, ?c])]"
    by (rule single_row) (simp_all add: position_point)
  show ?thesis
    by (simp only: P cullRows_def rows foldl.simps snd_conv pass)
qed

text \<open>The pass on the records at 100, 105 and 900: the record at 105 is alone on row 1,
  nothing hides it, and no badge is emitted once the record at 900 is 45 pixels right of
  the record at 100.\<close>

lemma cull_100_105_900:
  assumes "45 \<le> 8000 * scale vs"
    and "mw (pointRecord ia 100) = 40" and "mw (pointRecord ib 105) = 40"
  shows "cullRows mw (positionedEvents mw mode mn vs
           [pointRecord ia 100, pointRecord ib 105, pointRecord ic 900])
         = ({ia, ib, ic}, [])"
proof -
  let ?G = "[\<lparr>g_key = ''g'', g_y = 40, g_height = 56\<rparr>]"
  let ?a = "position mw mn vs ?G \<lparr>l_entry = pointRecord ia 100, l_row = 0, l_group = ''g''\<rparr>"
  let ?b = "position mw mn vs ?G \<lparr>l_entry = pointRecord ib 105, l_row = 1, l_group = ''g''\<rparr>"
  let ?c = "position mw mn vs ?G \<lparr>l_entry = pointRecord ic 900, l_row = 0, l_group = ''g''\<rparr>"
  have P: "positionedEvents mw mode mn vs
             [pointRecord ia 100, pointRecord ib 105, pointRecord ic 900] = [?a, ?b, ?c]"
    using assms(2,3) by (rule positioned_100_105_900)
  have xc: "p_x ?c - p_x ?a = 8000 * scale vs"
    using span_width [of mn vs 900 100] by (simp add: position_point)
  have wa: "p_width ?a = 40"
    using assms(2) by (simp add: position_point)
  have s1: "shown [?a, ?c] (Suc 0)"
    using xc wa assms(1) by (simp add: shown_def OVERLAP_GAP_def)
  have r0: "rowPass mw [?a, ?c] ({}, []) = ({ia, ic}, [])"
    using rowPass_pair_shown [OF s1, of mw] by (simp add: position_point pointRecord_id)
  have r1: "rowPass mw [?b] ({ia, ic}, []) = ({ia, ib, ic}, [])"
    using rowPass_acc [of mw "[?b]" "{ia, ic}" "[]"]
    by (simp add: rowPass_single rowBadges_def position_point pointRecord_id insert_commute)
  have rows: "rowEvents [?a, ?b, ?c] = [((''g'', 0), [?a, ?c]), ((''g'', 1), [?b])]"
    by (rule two_rows) (simp_all add: position_point)
  show ?thesis
    by (simp only: P cullRows_def rows foldl.simps snd_conv r0 r1)
qed

section \<open>Scenario A and the years of a badge\<close>

lemma badge_100_110_900:
  assumes "mw (pointRecord ia 100) = 40" and "mw (pointRecord ib 110) = 40"
  shows "count (closingBadge mw (positionedEvents mw mode mn vs
           [pointRecord ia 100, pointRecord ib 110, pointRecord ic 900]) 0 2) = 1"
    and "yearMin (closingBadge mw (positionedEvents mw mode mn vs
           [pointRecord ia 100, pointRecord ib 110, pointRecord ic 900]) 0 2) = 100"
    and "yearMax (closingBadge mw (positionedEvents mw mode mn vs
           [pointRecord ia 100, pointRecord ib 110, pointRecord ic 900]) 0 2) = 900"
    and "rk (afterPos (closingBadge mw (positionedEvents mw mode mn vs
           [pointRecord ia 100, pointRecord ib 110, pointRecord ic 900]) 0 2)) = (''g'', 0)"
    and "p_entry (afterPos (closingBadge mw (positionedEvents mw mode mn vs
           [pointRecord ia 100, pointRecord ib 110, pointRecord ic 900]) 0 2))
         = pointRecord ia 100"
    and "p_entry (beforePos (closingBadge mw (positionedEvents mw mode mn vs
           [pointRecord ia 100, pointRecord ib 110, pointRecord ic 900]) 0 2))
         = pointRecord ic 900"
  by (simp_all add: closingBadge_def positioned_100_110_900 [OF assms] position_point
      pointRecord_year yearOr_point)

lemma hiddenBadges_char:
  assumes "b \<in> set (hiddenBadges mw positioned)"
  shows "\<exists>row\<in>set (rowEvents positioned).
           (\<exists>j k. closesRun (snd row) j k \<and> b = closingBadge mw (snd row) j k)
         \<or> (\<exists>j. trailingRun (snd row) j \<and> b = trailingBadge mw (snd row) j)"
proof -
  from assms obtain row where row: "row \<in> set (rowEvents positioned)"
    and b: "b \<in> set (rowBadges mw (snd row))"
    by (auto simp add: hiddenBadges_rows)
  from row have "(fst row, snd row) \<in> set (rowEvents positioned)" by simp
  then have "snd row \<noteq> []" using rowEvents_row by blast
  from rowBadges_char [OF this b] row show ?thesis by blast
qed

text \<open>
  C3, as stated: three point records of one group at the years 100, 105 and 900 with 40
  pixel labels lie in one row, and the record at 105 is folded into a badge with
  \<open>yearMin = 100\<close> and \<open>yearMax = 105\<close>; the \<open>yearMin\<close> of a closing badge is the year of
  the first hidden record of its run. The layout places the record at 105 on row 1 (a 40
  pixel label takes 8 years at the layout scale), and at the scale 1/20 no badge is
  emitted. For the years 100, 110 and 900 the layout does build one row, and at the
  scale 1/20 the pass emits one badge, with count 1, \<open>yearMin = 100\<close> and
  \<open>yearMax = 900\<close>, while the only hidden record is the one at 110.
\<close>

theorem C3_badge_years_counterexample:
  "map l_row (sl_layoutEntries (stableLayout (\<lambda>e. 40) ByDynasty
       [pointRecord ''a'' 100, pointRecord ''b'' 105, pointRecord ''c'' 900])) = [0, 1, 0]
   \<and> hiddenBadges (\<lambda>e. 40)
        (positionedEvents (\<lambda>e. 40) ByDynasty 100 \<lparr>offsetX = 0, offsetY = 0, scale = 1 / 20\<rparr>
           [pointRecord ''a'' 100, pointRecord ''b'' 105, pointRecord ''c'' 900]) = []
   \<and> map l_row (sl_layoutEntries (stableLayout (\<lambda>e. 40) ByDynasty
       [pointRecord ''a'' 100, pointRecord ''b'' 110, pointRecord ''c'' 900])) = [0, 0, 0]
   \<and> visibleSet (\<lambda>e. 40)
        (positionedEvents (\<lambda>e. 40) ByDynasty 100 \<lparr>offsetX = 0, offsetY = 0, scale = 1 / 20\<rparr>
           [pointRecord ''a'' 100, pointRecord ''b'' 110, pointRecord ''c'' 900]) None
       = {''a'', ''c''}
   \<and> map (\<lambda>b. (count b, yearMin b, yearMax b))
       (hiddenBadges (\<lambda>e. 40)
          (positionedEvents (\<lambda>e. 40) ByDynasty 100 \<lparr>offsetX = 0, offsetY = 0, scale = 1 / 20\<rparr>
             [pointRecord ''a'' 100, pointRecord ''b'' 110, pointRecord ''c'' 900]))
       = [(1, 100, 900)]
   \<and> getYear (pointRecord ''b'' 110) False = 110"
proof -
  let ?mw = "\<lambda>e::TimelineEntry. 40::real"
  let ?V = "\<lparr>offsetX = 0, offsetY = 0, scale = 1 / 20\<rparr>"
  have r5: "map l_row (sl_layoutEntries (stableLayout ?mw ByDynasty
       [pointRecord ''a'' 100, pointRecord ''b'' 105, pointRecord ''c'' 900])) = [0, 1, 0]"
    by (simp add: layout_100_105_900)
  have c5: "cullRows ?mw (positionedEvents ?mw ByDynasty 100 ?V
       [pointRecord ''a'' 100, pointRecord ''b'' 105, pointRecord ''c'' 900])
      = ({''a'', ''b'', ''c''}, [])"
    by (rule cull_100_105_900) simp_all
  have r10: "map l_row (sl_layoutEntries (stableLayout ?mw ByDynasty
       [pointRecord ''a'' 100, pointRecord ''b'' 110, pointRecord ''c'' 900])) = [0, 0, 0]"
    by (simp add: layout_100_110_900)
  have c10: "cullRows ?mw (positionedEvents ?mw ByDynasty 100 ?V
       [pointRecord ''a'' 100, pointRecord ''b'' 110, pointRecord ''c'' 900])
      = ({''a'', ''c''}, [closingBadge ?mw (positionedEvents ?mw ByDynasty 100 ?V
       [pointRecord ''a'' 100, pointRecord ''b'' 110, pointRecord ''c'' 900]) 0 2])"
    by (rule cull_100_110_900) simp_all
  show ?thesis
    using r5 r10
    by (simp add: hiddenBadges_def visibleSet_def c5 c10 badge_100_110_900 pointRecord_year)
qed

text \<open>
  C3, amended. Take three point records of one group with 40 pixel labels at a camera
  scale \<open>s\<close> with \<open>s < 1/10\<close> (5 years are fewer than 5 pixels) and \<open>45 \<le> 7900 * s\<close> (the
  record at 900 starts at least 45 pixels right of the middle record). At the years 100,
  105 and 900 the layout places the record at 105 on a row of its own (rows 0, 1, 0): all
  three records are visible and no badge is emitted. At the years 100, 110 and 900 the
  layout places the three records on one row: the pass keeps the records at 100 and 900
  visible and folds the record at 110 into exactly one badge, with count 1,
  \<open>yearMin = 100\<close> and \<open>yearMax = 900\<close>. More generally, every badge is either emitted
  when a hidden run is closed, and then its \<open>yearMin\<close> is the ordering year of the shown
  record before the run and its \<open>yearMax\<close> is the end-or-start year of the closing record
  (its start year when that year is 0), or it is the badge of a trailing run.
\<close>

theorem C3_rows_and_badge_years:
  assumes "45 \<le> 7900 * scale vs" and "scale vs < 1 / 10"
    and "mw (pointRecord ia 100) = 40" and "mw (pointRecord ib 105) = 40"
    and "mw (pointRecord ib 110) = 40" and "mw (pointRecord ic 900) = 40"
    and "ib \<noteq> ia" and "ib \<noteq> ic"
  shows "map l_row (sl_layoutEntries (stableLayout mw mode
             [pointRecord ia 100, pointRecord ib 105, pointRecord ic 900])) = [0, 1, 0]
       \<and> visibleSet mw (positionedEvents mw mode mn vs
             [pointRecord ia 100, pointRecord ib 105, pointRecord ic 900]) None = {ia, ib, ic}
       \<and> hiddenBadges mw (positionedEvents mw mode mn vs
             [pointRecord ia 100, pointRecord ib 105, pointRecord ic 900]) = []
       \<and> map l_row (sl_layoutEntries (stableLayout mw mode
             [pointRecord ia 100, pointRecord ib 110, pointRecord ic 900])) = [0, 0, 0]
       \<and> visibleSet mw (positionedEvents mw mode mn vs
             [pointRecord ia 100, pointRecord ib 110, pointRecord ic 900]) None = {ia, ic}
       \<and> ib \<notin> visibleSet mw (positionedEvents mw mode mn vs
             [pointRecord ia 100, pointRecord ib 110, pointRecord ic 900]) None
       \<and> (\<exists>b. hiddenBadges mw (positionedEvents mw mode mn vs
                 [pointRecord ia 100, pointRecord ib 110, pointRecord ic 900]) = [b]
              \<and> count b = 1 \<and> yearMin b = 100 \<and> yearMax b = 900
              \<and> p_entry (afterPos b) = pointRecord ia 100
              \<and> p_entry (beforePos b) = pointRecord ic 900)
       \<and> (\<forall>b\<in>set (hiddenBadges mw' positioned).
            \<exists>row\<in>set (rowEvents positioned).
              (\<exists>j k. closesRun (snd row) j k
                  \<and> afterPos b = snd row ! j \<and> beforePos b = snd row ! k
                  \<and> count b = k - j - 1
                  \<and> yearMin b = getYear (p_entry (snd row ! j)) False
                  \<and> yearMax b = yearOr (p_entry (snd row ! k)))
            \<or> (\<exists>j. trailingRun (snd row) j \<and> b = trailingBadge mw' (snd row) j))"
proof (intro conjI ballI)
  let ?P5 = "positionedEvents mw mode mn vs
               [pointRecord ia 100, pointRecord ib 105, pointRecord ic 900]"
  let ?P = "positionedEvents mw mode mn vs
               [pointRecord ia 100, pointRecord ib 110, pointRecord ic 900]"
  show "map l_row (sl_layoutEntries (stableLayout mw mode
             [pointRecord ia 100, pointRecord ib 105, pointRecord ic 900])) = [0, 1, 0]"
    using assms(3,4) by (simp add: layout_100_105_900)
  have s: "45 \<le> 8000 * scale vs" using assms(1) by simp
  have c5: "cullRows mw ?P5 = ({ia, ib, ic}, [])"
    using s assms(3,4) by (rule cull_100_105_900)
  show "visibleSet mw ?P5 None = {ia, ib, ic}"
    by (simp add: visibleSet_def c5)
  show "hiddenBadges mw ?P5 = []"
    by (simp add: hiddenBadges_def c5)
  show "map l_row (sl_layoutEntries (stableLayout mw mode
             [pointRecord ia 100, pointRecord ib 110, pointRecord ic 900])) = [0, 0, 0]"
    using assms(3,5) by (simp add: layout_100_110_900)
  have c: "cullRows mw ?P = ({ia, ic}, [closingBadge mw ?P 0 2])"
    using assms(1,2,3,5) by (rule cull_100_110_900)
  show v: "visibleSet mw ?P None = {ia, ic}"
    by (simp add: visibleSet_def c)
  show "ib \<notin> visibleSet mw ?P None"
    using assms(7,8) by (simp add: v)
  have "hiddenBadges mw ?P = [closingBadge mw ?P 0 2]"
    by (simp add: hiddenBadges_def c)
  then show "\<exists>b. hiddenBadges mw ?P = [b]
              \<and> count b = 1 \<and> yearMin b = 100 \<and> yearMax b = 900
              \<and> p_entry (afterPos b) = pointRecord ia 100
              \<and> p_entry (beforePos b) = pointRecord ic 900"
    using assms(3,5) by (simp add: badge_100_110_900)
next
  fix b assume "b \<in> set (hiddenBadges mw' positioned)"
  from hiddenBadges_char [OF this]
  obtain row where row: "row \<in> set (rowEvents positioned)"
    and d: "(\<exists>j k. closesRun (snd row) j k \<and> b = closingBadge mw' (snd row) j k)
          \<or> (\<exists>j. trailingRun (snd row) j \<and> b = trailingBadge mw' (snd row) j)"
    by blast
  from d show "\<exists>row\<in>set (rowEvents positioned).
              (\<exists>j k. closesRun (snd row) j k
                  \<and> afterPos b = snd row ! j \<and> beforePos b = snd row ! k
                  \<and> count b = k - j - 1
                  \<and> yearMin b = getYear (p_entry (snd row ! j)) False
                  \<and> yearMax b = yearOr (p_entry (snd row ! k)))
            \<or> (\<exists>j. trailingRun (snd row) j \<and> b = trailingBadge mw' (snd row) j)"
  proof
    assume "\<exists>j k. closesRun (snd row) j k \<and> b = closingBadge mw' (snd row) j k"
    then obtain j k where "closesRun (snd row) j k" and "b = closingBadge mw' (snd row) j k"
      by blast
    then have "closesRun (snd row) j k
                  \<and> afterPos b = snd row ! j \<and> beforePos b = snd row ! k
                  \<and> count b = k - j - 1
                  \<and> yearMin b = getYear (p_entry (snd row ! j)) False
                  \<and> yearMax b = yearOr (p_entry (snd row ! k))"
      by (simp add: closingBadge_def)
    with row show ?thesis by blast
  next
    assume "\<exists>j. trailingRun (snd row) j \<and> b = trailingBadge mw' (snd row) j"
    with row show ?thesis by blast
  qed
qed


theorem C3_rows_and_badge_years_witness:
  "45 \<le> 7900 * scale \<lparr>offsetX = 0, offsetY = 0, scale = 1 / 20\<rparr>
   \<and> scale \<lparr>offsetX = 0, offsetY = 0, scale = 1 / 20\<rparr> < 1 / 10
   \<and> ''b'' \<noteq> ''a'' \<and> ''b'' \<noteq> ''c''
   \<and> map l_row (sl_layoutEntries (stableLayout (\<lambda>e. 40) ByDynasty
         [pointRecord ''a'' 100, pointRecord ''b'' 105, pointRecord ''c'' 900])) = [0, 1, 0]
   \<and> hiddenBadges (\<lambda>e. 40)
        (positionedEvents (\<lambda>e. 40) ByDynasty 100 \<lparr>offsetX = 0, offsetY = 0, scale = 1 / 20\<rparr>
           [pointRecord ''a'' 100, pointRecord ''b'' 105, pointRecord ''c'' 900]) = []
   \<and> visibleSet (\<lambda>e. 40)
        (positionedEvents (\<lambda>e. 40) ByDynasty 100 \<lparr>offsetX = 0, offsetY = 0, scale = 1 / 20\<rparr>
           [pointRecord ''a'' 100, pointRecord ''b'' 110, pointRecord ''c'' 900]) None
       = {''a'', ''c''}
   \<and> (\<exists>b. hiddenBadges (\<lambda>e. 40)
              (positionedEvents (\<lambda>e. 40) ByDynasty 100
                 \<lparr>offsetX = 0, offsetY = 0, scale = 1 / 20\<rparr>
                 [pointRecord ''a'' 100, pointRecord ''b'' 110, pointRecord ''c'' 900]) = [b]
          \<and> count b = 1 \<and> yearMin b = 100 \<and> yearMax b = 900
          \<and> (\<exists>row\<in>set (rowEvents
                (positionedEvents (\<lambda>e. 40) ByDynasty 100
                   \<lparr>offsetX = 0, offsetY = 0, scale = 1 / 20\<rparr>
                   [pointRecord ''a'' 100, pointRecord ''b'' 110, pointRecord ''c'' 900])).
                \<exists>j k. closesRun (snd row) j k
                  \<and> yearMin b = getYear (p_entry (snd row ! j)) False
                  \<and> yearMax b = yearOr (p_entry (snd row ! k))))"
proof -
  let ?V = "\<lparr>offsetX = 0, offsetY = 0, scale = 1 / 20\<rparr>"
  let ?mw = "\<lambda>e::TimelineEntry. 40::real"
  let ?S5 = "positionedEvents ?mw ByDynasty 100 ?V
               [pointRecord ''a'' 100, pointRecord ''b'' 105, pointRecord ''c'' 900]"
  let ?S = "positionedEvents ?mw ByDynasty 100 ?V
               [pointRecord ''a'' 100, pointRecord ''b'' 110, pointRecord ''c'' 900]"
  have h1: "45 \<le> 7900 * scale ?V" by simp
  have h2: "scale ?V < 1 / 10" by simp
  have h3: "?mw (pointRecord ''a'' 100) = 40" by simp
  have h4: "?mw (pointRecord ''b'' 105) = 40" by simp
  have h5: "?mw (pointRecord ''b'' 110) = 40" by simp
  have h6: "?mw (pointRecord ''c'' 900) = 40" by simp
  have h7: "''b'' \<noteq> ''a''" by simp
  have h8: "''b'' \<noteq> ''c''" by simp
  note T = C3_rows_and_badge_years [OF h1 h2 h3 h4 h5 h6 h7 h8,
      where mn = 100 and mode = ByDynasty and mw' = ?mw and positioned = ?S]
  from T have r: "map l_row (sl_layoutEntries (stableLayout ?mw ByDynasty
         [pointRecord ''a'' 100, pointRecord ''b'' 105, pointRecord ''c'' 900])) = [0, 1, 0]"
    by blast
  from T have n: "hiddenBadges ?mw ?S5 = []" by blast
  from T have v: "visibleSet ?mw ?S None = {''a'', ''c''}" by blast
  from T obtain b where b: "hiddenBadges ?mw ?S = [b]" "count b = 1" "yearMin b = 100"
    "yearMax b = 900" "p_entry (afterPos b) = pointRecord ''a'' 100"
    "p_entry (beforePos b) = pointRecord ''c'' 900"
    by blast
  have ne: "afterPos b \<noteq> beforePos b"
  proof
    assume "afterPos b = beforePos b"
    then have "pointRecord ''a'' 100 = pointRecord ''c'' 900" using b(5,6) by simp
    then show False by (simp add: pointRecord_def)
  qed
  have bm: "b \<in> set (hiddenBadges ?mw ?S)" using b(1) by simp
  from T have G: "\<forall>b\<in>set (hiddenBadges ?mw ?S).
            \<exists>row\<in>set (rowEvents ?S).
              (\<exists>j k. closesRun (snd row) j k
                  \<and> afterPos b = snd row ! j \<and> beforePos b = snd row ! k
                  \<and> count b = k - j - 1
                  \<and> yearMin b = getYear (p_entry (snd row ! j)) False
                  \<and> yearMax b = yearOr (p_entry (snd row ! k)))
            \<or> (\<exists>j. trailingRun (snd row) j \<and> b = trailingBadge ?mw (snd row) j)"
    by blast
  from G [THEN bspec, OF bm] obtain row where row: "row \<in> set (rowEvents ?S)"
    and d: "(\<exists>j k. closesRun (snd row) j k
                  \<and> afterPos b = snd row ! j \<and> beforePos b = snd row ! k
                  \<and> count b = k - j - 1
                  \<and> yearMin b = getYear (p_entry (snd row ! j)) False
                  \<and> yearMax b = yearOr (p_entry (snd row ! k)))
            \<or> (\<exists>j. trailingRun (snd row) j \<and> b = trailingBadge ?mw (snd row) j)"
    by blast
  have "\<not> (\<exists>j. trailingRun (snd row) j \<and> b = trailingBadge ?mw (snd row) j)"
    using ne by (auto simp add: trailingBadge_def)
  with d row have "\<exists>row\<in>set (rowEvents ?S).
                \<exists>j k. closesRun (snd row) j k
                  \<and> yearMin b = getYear (p_entry (snd row ! j)) False
                  \<and> yearMax b = yearOr (p_entry (snd row ! k))"
    by blast
  with b(1-4) have "\<exists>b. hiddenBadges ?mw ?S = [b]
          \<and> count b = 1 \<and> yearMin b = 100 \<and> yearMax b = 900
          \<and> (\<exists>row\<in>set (rowEvents ?S).
                \<exists>j k. closesRun (snd row) j k
                  \<and> yearMin b = getYear (p_entry (snd row ! j)) False
                  \<and> yearMax b = yearOr (p_entry (snd row ! k)))"
    by blast
  with h1 h2 h7 h8 r n v show ?thesis by blast
qed

section \<open>Badges in a narrow gap\<close>

lemma rowBadges_trailing:
  assumes "trailingRun events j"
  shows "trailingBadge mw events j \<in> set (rowBadges mw events)"
proof -
  let ?x = "entry_id (p_entry (events ! 0))"
  obtain l' V' B' where r: "rowLoop mw events 1 0 {} [] = (l', V', B')"
    by (cases "rowLoop mw events 1 0 {} []") auto
  have t: "Suc j < length events" "shown events j"
    "\<forall>m. Suc j \<le> m \<and> m < length events \<longrightarrow> \<not> shown events m"
    using assms by (auto simp add: trailingRun_def list_all_iff)
  have n: "1 \<le> length events" using t(1) by simp
  have s0: "shown events 0" by (simp add: shown_def)
  have "shown events l' \<and> l' < length events
       \<and> list_all (\<lambda>m. \<not> shown events m) [Suc l'..<length events]
       \<and> (\<forall>b\<in>set B'. \<exists>j k. closesRun events j k \<and> b = closingBadge mw events j k)"
    using rowLoop_badges [OF _ n s0 _ r] by simp
  then have c: "shown events l'" "l' < length events"
    "\<forall>m. Suc l' \<le> m \<and> m < length events \<longrightarrow> \<not> shown events m"
    by (auto simp add: list_all_iff)
  have "\<not> j < l'" using t(3) c(1,2) by auto
  moreover have "\<not> l' < j" using c(3) t(1,2) by auto
  ultimately have j: "j = l'" by simp
  have a: "rowLoop mw events 1 0 {?x} [] = (l', {?x} \<union> V', [] @ B')"
    using rowLoop_acc [of 1 mw events 0 "{?x}" "[]"] r by simp
  have "rowBadges mw events
              = (if 0 < length events - 1 - l' then B' @ [trailingBadge mw events l'] else B')"
    using a by (simp add: rowBadges_def rowPass_def)
  with t(1) j show ?thesis by simp
qed

lemma distinct_ids_nth:
  assumes "distinct (map (\<lambda>p. entry_id (p_entry p)) events)"
    and "j < length events" and "k < length events" and "j \<noteq> k"
  shows "events ! j \<noteq> events ! k"
proof -
  have "distinct events" using assms(1) by (rule distinct_map [THEN iffD1, THEN conjunct1])
  then show ?thesis using assms(2-4) by (simp add: nth_eq_iff_index_eq)
qed

lemma badgeHitRects_dropped:
  assumes "badgeRect tw width height vs b = None"
  shows "badgeHitRects tw width height vs (pre @ b # post)
           = badgeHitRects tw width height vs pre @ badgeHitRects tw width height vs post"
  using assms by (simp add: badgeHitRects_def List.map_filter_def)

text \<open>
  C10. In a row whose events have different ids: the badge of a hidden run closed between
  the shown events at \<open>j\<close> and \<open>k\<close> is emitted by the pass, and when the gap between the
  two (left edge of the event at \<open>k\<close> minus right edge of the event at \<open>j\<close>) is less than
  24 pixels, the badge loop leaves its iteration before it paints the badge or pushes its
  rectangle, so the list of hit rectangles holds nothing for it. The badge of a trailing
  run always gets a left edge 4 pixels right of its anchor, and is left out only when it
  is off the screen vertically or horizontally.
\<close>

theorem C10_narrow_gap_badge_dropped:
  assumes "distinct (map (\<lambda>p. entry_id (p_entry p)) events)"
  shows "(closesRun events j k
           \<and> p_x (events ! k) - (p_x (events ! j) + p_width (events ! j)) < 24
          \<longrightarrow> closingBadge mw events j k \<in> set (rowBadges mw events)
              \<and> badgeRect tw width height vs (closingBadge mw events j k) = None
              \<and> badgeHitRects tw width height vs (pre @ closingBadge mw events j k # post)
                  = badgeHitRects tw width height vs pre @ badgeHitRects tw width height vs post)
       \<and> (trailingRun events j
          \<longrightarrow> trailingBadge mw events j \<in> set (rowBadges mw events)
              \<and> badgeX tw (trailingBadge mw events j)
                  = Some (p_x (events ! j) + p_width (events ! j) + 4)
              \<and> (badgeRect tw width height vs (trailingBadge mw events j) = None
                  \<longleftrightarrow> (p_y (events ! j) + offsetY vs + p_height (events ! j) < AXIS_HEIGHT
                       \<or> p_y (events ! j) + offsetY vs > height
                       \<or> p_x (events ! j) + p_width (events ! j) + 4 > width
                       \<or> p_x (events ! j) + p_width (events ! j) + 4 + 40 < GROUP_LABEL_WIDTH)))"
proof (intro conjI impI)
  assume a: "closesRun events j k
           \<and> p_x (events ! k) - (p_x (events ! j) + p_width (events ! j)) < 24"
  then have cr: "closesRun events j k" by simp
  then have jk: "j < length events" "k < length events" "j \<noteq> k"
    by (auto simp add: closesRun_def)
  have ne: "events ! j \<noteq> events ! k"
    using assms jk by (rule distinct_ids_nth)
  show "closingBadge mw events j k \<in> set (rowBadges mw events)"
    using cr by (rule rowBadges_complete)
  have "badgeX tw (closingBadge mw events j k) = None"
    using a ne by (simp add: badgeX_def closingBadge_def Let_def)
  then show none: "badgeRect tw width height vs (closingBadge mw events j k) = None"
    by (simp add: badgeRect_def Let_def)
  show "badgeHitRects tw width height vs (pre @ closingBadge mw events j k # post)
          = badgeHitRects tw width height vs pre @ badgeHitRects tw width height vs post"
    using none by (rule badgeHitRects_dropped)
next
  assume t: "trailingRun events j"
  show "trailingBadge mw events j \<in> set (rowBadges mw events)"
    using t by (rule rowBadges_trailing)
  show x: "badgeX tw (trailingBadge mw events j)
          = Some (p_x (events ! j) + p_width (events ! j) + 4)"
    by (simp add: badgeX_def trailingBadge_def)
  show "badgeRect tw width height vs (trailingBadge mw events j) = None
          \<longleftrightarrow> (p_y (events ! j) + offsetY vs + p_height (events ! j) < AXIS_HEIGHT
               \<or> p_y (events ! j) + offsetY vs > height
               \<or> p_x (events ! j) + p_width (events ! j) + 4 > width
               \<or> p_x (events ! j) + p_width (events ! j) + 4 + 40 < GROUP_LABEL_WIDTH)"
    by (simp add: badgeRect_def x Let_def) (auto simp add: trailingBadge_def)
qed

theorem C10_narrow_gap_badge_dropped_witness:
  "distinct (map (\<lambda>p. entry_id (p_entry p))
      [\<lparr>p_entry = pointRecord ''a'' 100, p_x = 210, p_y = 40, p_width = 40, p_height = 24,
         p_group = ''g'', p_row = 0\<rparr>,
       \<lparr>p_entry = pointRecord ''b'' 105, p_x = 212, p_y = 40, p_width = 40, p_height = 24,
         p_group = ''g'', p_row = 0\<rparr>,
       \<lparr>p_entry = pointRecord ''c'' 110, p_x = 260, p_y = 40, p_width = 40, p_height = 24,
         p_group = ''g'', p_row = 0\<rparr>])
   \<and> closesRun
      [\<lparr>p_entry = pointRecord ''a'' 100, p_x = 210, p_y = 40, p_width = 40, p_height = 24,
         p_group = ''g'', p_row = 0\<rparr>,
       \<lparr>p_entry = pointRecord ''b'' 105, p_x = 212, p_y = 40, p_width = 40, p_height = 24,
         p_group = ''g'', p_row = 0\<rparr>,
       \<lparr>p_entry = pointRecord ''c'' 110, p_x = 260, p_y = 40, p_width = 40, p_height = 24,
         p_group = ''g'', p_row = 0\<rparr>] 0 2
   \<and> (260::real) - (210 + 40) < 24
   \<and> badgeRect (\<lambda>n. 12) 800 600 \<lparr>offsetX = 0, offsetY = 0, scale = 1 / 20\<rparr>
        (closingBadge (\<lambda>e. 40)
          [\<lparr>p_entry = pointRecord ''a'' 100, p_x = 210, p_y = 40, p_width = 40, p_height = 24,
             p_group = ''g'', p_row = 0\<rparr>,
           \<lparr>p_entry = pointRecord ''b'' 105, p_x = 212, p_y = 40, p_width = 40, p_height = 24,
             p_group = ''g'', p_row = 0\<rparr>,
           \<lparr>p_entry = pointRecord ''c'' 110, p_x = 260, p_y = 40, p_width = 40, p_height = 24,
             p_group = ''g'', p_row = 0\<rparr>] 0 2) = None
   \<and> trailingRun
      [\<lparr>p_entry = pointRecord ''a'' 100, p_x = 210, p_y = 40, p_width = 40, p_height = 24,
         p_group = ''g'', p_row = 0\<rparr>,
       \<lparr>p_entry = pointRecord ''b'' 105, p_x = 212, p_y = 40, p_width = 40, p_height = 24,
         p_group = ''g'', p_row = 0\<rparr>] 0
   \<and> badgeRect (\<lambda>n. 12) 800 600 \<lparr>offsetX = 0, offsetY = 0, scale = 1 / 20\<rparr>
        (trailingBadge (\<lambda>e. 40)
          [\<lparr>p_entry = pointRecord ''a'' 100, p_x = 210, p_y = 40, p_width = 40, p_height = 24,
             p_group = ''g'', p_row = 0\<rparr>,
           \<lparr>p_entry = pointRecord ''b'' 105, p_x = 212, p_y = 40, p_width = 40, p_height = 24,
             p_group = ''g'', p_row = 0\<rparr>] 0) \<noteq> None"
proof -
  let ?a = "\<lparr>p_entry = pointRecord ''a'' 100, p_x = 210, p_y = 40, p_width = 40, p_height = 24,
         p_group = ''g'', p_row = 0\<rparr>"
  let ?b = "\<lparr>p_entry = pointRecord ''b'' 105, p_x = 212, p_y = 40, p_width = 40, p_height = 24,
         p_group = ''g'', p_row = 0\<rparr>"
  let ?c = "\<lparr>p_entry = pointRecord ''c'' 110, p_x = 260, p_y = 40, p_width = 40, p_height = 24,
         p_group = ''g'', p_row = 0\<rparr>"
  let ?V = "\<lparr>offsetX = 0, offsetY = 0, scale = 1 / 20\<rparr>"
  have d3: "distinct (map (\<lambda>p. entry_id (p_entry p)) [?a, ?b, ?c])"
    by (simp add: pointRecord_def)
  have d2: "distinct (map (\<lambda>p. entry_id (p_entry p)) [?a, ?b])"
    by (simp add: pointRecord_def)
  have cr: "closesRun [?a, ?b, ?c] 0 2"
    by (simp add: closesRun_def shown_def OVERLAP_GAP_def numeral_2_eq_2)
  have gap: "p_x ([?a, ?b, ?c] ! 2) - (p_x ([?a, ?b, ?c] ! 0) + p_width ([?a, ?b, ?c] ! 0)) < 24"
    by simp
  have tr: "trailingRun [?a, ?b] 0"
    by (simp add: trailingRun_def shown_def OVERLAP_GAP_def)
  have on: "\<not> (p_y ([?a, ?b] ! 0) + offsetY ?V + p_height ([?a, ?b] ! 0) < AXIS_HEIGHT
             \<or> p_y ([?a, ?b] ! 0) + offsetY ?V > 600
             \<or> p_x ([?a, ?b] ! 0) + p_width ([?a, ?b] ! 0) + 4 > 800
             \<or> p_x ([?a, ?b] ! 0) + p_width ([?a, ?b] ! 0) + 4 + 40 < GROUP_LABEL_WIDTH)"
    by (simp add: AXIS_HEIGHT_def GROUP_LABEL_WIDTH_def)
  have 1: "badgeRect (\<lambda>n. 12) 800 600 ?V (closingBadge (\<lambda>e. 40) [?a, ?b, ?c] 0 2) = None"
    using C10_narrow_gap_badge_dropped [OF d3, where j = 0 and k = 2 and mw = "\<lambda>e. 40"
        and tw = "\<lambda>n. 12" and width = 800 and height = 600 and vs = ?V] cr gap
    by blast
  have 2: "badgeRect (\<lambda>n. 12) 800 600 ?V (trailingBadge (\<lambda>e. 40) [?a, ?b] 0) \<noteq> None"
    using C10_narrow_gap_badge_dropped [OF d2, where j = 0 and mw = "\<lambda>e. 40"
        and tw = "\<lambda>n. 12" and width = 800 and height = 600 and vs = ?V] tr on
    by blast
  show ?thesis using d3 cr 1 tr 2 by simp
qed

section \<open>Every record is drawn or counted\<close>

lemma length_filter_nth:
  "length (filter Q es) = length (filter (\<lambda>m. Q (es ! m)) [0..<length es])"
proof -
  have "filter Q es = filter Q (map (nth es) [0..<length es])"
    by (simp add: map_nth)
  also have "\<dots> = map (nth es) (filter (Q \<circ> nth es) [0..<length es])"
    by (simp add: filter_map)
  finally have "length (filter Q es) = length (filter (Q \<circ> nth es) [0..<length es])"
    by simp
  then show ?thesis by (simp add: comp_def)
qed

lemma map_over_indices:
  "map (\<lambda>m. f (es ! m)) [0..<length es] = map f es"
proof -
  have "map (\<lambda>m. f (es ! m)) [0..<length es] = map f (map (nth es) [0..<length es])"
    by simp
  then show ?thesis by (simp only: map_nth)
qed

lemma length_filter_or:
  "length (filter (\<lambda>x. A x \<or> C x) xs)
     = length (filter A xs) + length (filter (\<lambda>x. \<not> A x \<and> C x) xs)"
  by (induction xs) auto

lemma length_filter_one:
  assumes "distinct (map f xs)"
  shows "length (filter (\<lambda>x. Q x \<and> f x = a) xs)
           = (if \<exists>x\<in>set xs. Q x \<and> f x = a then 1 else 0)"
  using assms
proof (induction xs)
  case Nil
  then show ?case by simp
next
  case (Cons x xs)
  then have d: "f x \<notin> f ` set xs" and ih: "length (filter (\<lambda>x. Q x \<and> f x = a) xs)
           = (if \<exists>x\<in>set xs. Q x \<and> f x = a then 1 else 0)"
    by auto
  show ?case
  proof (cases "Q x \<and> f x = a")
    case True
    with d have "\<not> (\<exists>y\<in>set xs. Q y \<and> f y = a)" by (metis image_eqI)
    with ih True show ?thesis by simp
  next
    case False
    with ih show ?thesis by auto
  qed
qed

lemma concat_one_key:
  assumes "distinct (map fst rows)" and "(k, es) \<in> set rows"
  shows "concat (map (\<lambda>r. if fst r = k then f (snd r) else []) rows) = f es"
  using assms
proof (induction rows)
  case Nil
  then show ?case by simp
next
  case (Cons r rows)
  show ?case
  proof (cases "fst r = k")
    case True
    with Cons.prems have "r = (k, es)" and "\<forall>q\<in>set rows. fst q \<noteq> k"
      by (auto simp add: rev_image_eqI)
    then have "concat (map (\<lambda>r. if fst r = k then f (snd r) else []) rows) = []"
      by simp
    with True \<open>r = (k, es)\<close> show ?thesis by simp
  next
    case False
    with Cons show ?thesis by auto
  qed
qed

text \<open>The badges whose anchor lies in the row of key \<open>k\<close> are the badges of that row.\<close>

lemma row_badges_by_key:
  assumes "(k, es) \<in> set (rowEvents ps)"
  shows "filter (\<lambda>b. rk (afterPos b) = k) (hiddenBadges mw ps) = rowBadges mw es"
proof -
  have one: "filter (\<lambda>b. rk (afterPos b) = k) (rowBadges mw (snd r))
               = (if fst r = k then rowBadges mw (snd r) else [])"
    if r: "r \<in> set (rowEvents ps)" for r
  proof -
    from r have "(fst r, snd r) \<in> set (rowEvents ps)" by simp
    then have e: "snd r = filter (\<lambda>p. rk p = fst r) ps" and ne: "snd r \<noteq> []"
      using rowEvents_row by blast+
    have "rk (afterPos b) = fst r" if "b \<in> set (rowBadges mw (snd r))" for b
    proof -
      have "afterPos b \<in> set (snd r)" using ne that by (rule rowBadges_afterPos)
      then have "afterPos b \<in> set (filter (\<lambda>p. rk p = fst r) ps)" using e by simp
      then show ?thesis by simp
    qed
    then show ?thesis by (auto simp add: filter_empty_conv)
  qed
  have "filter (\<lambda>b. rk (afterPos b) = k) (hiddenBadges mw ps)
          = concat (map (\<lambda>r. filter (\<lambda>b. rk (afterPos b) = k) (rowBadges mw (snd r)))
              (rowEvents ps))"
    by (simp add: hiddenBadges_rows filter_concat comp_def)
  also have "\<dots> = concat (map (\<lambda>r. if fst r = k then rowBadges mw (snd r) else [])
              (rowEvents ps))"
    using one by (simp cong: map_cong)
  also have "\<dots> = rowBadges mw es"
    using rowEvents_distinct assms by (rule concat_one_key)
  finally show ?thesis .
qed

text \<open>With different ids, the pass puts the id of an event of a row into the visible set
  exactly when the event is shown in its row.\<close>

lemma culled_iff_shown:
  assumes "distinct (map (\<lambda>p. entry_id (p_entry p)) ps)"
    and "(k, es) \<in> set (rowEvents ps)" and "m < length es"
  shows "entry_id (p_entry (es ! m)) \<in> fst (cullRows mw ps) \<longleftrightarrow> shown es m"
proof
  assume "shown es m"
  then have "entry_id (p_entry (es ! m)) \<in> shownIds es"
    using assms(3) by (simp add: shownIds_def)
  then have "\<exists>r\<in>set (rowEvents ps). entry_id (p_entry (es ! m)) \<in> shownIds (snd r)"
    using assms(2) by (intro bexI [of _ "(k, es)"]) simp_all
  then show "entry_id (p_entry (es ! m)) \<in> fst (cullRows mw ps)"
    by (simp add: cullRows_visible)
next
  assume "entry_id (p_entry (es ! m)) \<in> fst (cullRows mw ps)"
  then obtain r where r: "r \<in> set (rowEvents ps)"
    and i: "entry_id (p_entry (es ! m)) \<in> shownIds (snd r)"
    by (auto simp add: cullRows_visible)
  from i obtain m' where m': "m' < length (snd r)" "shown (snd r) m'"
    "entry_id (p_entry (snd r ! m')) = entry_id (p_entry (es ! m))"
    by (auto simp add: shownIds_def)
  from r have "(fst r, snd r) \<in> set (rowEvents ps)" by simp
  then have er: "snd r = filter (\<lambda>p. rk p = fst r) ps" using rowEvents_row by blast
  have e: "es = filter (\<lambda>p. rk p = k) ps" using assms(2) rowEvents_row by blast
  have in1: "snd r ! m' \<in> set (filter (\<lambda>p. rk p = fst r) ps)"
    using m'(1) er nth_mem [of m' "snd r"] by simp
  have in2: "es ! m \<in> set (filter (\<lambda>p. rk p = k) ps)"
    using assms(3) e nth_mem [of m es] by simp
  have inj: "inj_on (\<lambda>p. entry_id (p_entry p)) (set ps)"
    using assms(1) by (simp add: distinct_map)
  have same: "snd r ! m' = es ! m"
    using inj m'(3) in1 in2 by (auto dest: inj_onD)
  with in1 in2 have "fst r = k" by auto
  with er e have es: "snd r = es" by simp
  have "distinct es"
    using assms(1) e by (simp add: distinct_map)
  with same es m'(1) assms(3) have "m' = m" by (simp add: nth_eq_iff_index_eq)
  with m'(2) es show "shown es m" by simp
qed

text \<open>
  C2, as stated: for every row, the visible records and the hidden counts of the row's
  badges add up to the records of the row, also when the selected record lies inside a
  hidden run. Three point records of one group at the years 100, 110 and 900 with 40 pixel
  labels are laid out on one row; at the scale 1/20 with the record at 110 selected, the
  three records of the row are all in the visible set and the badge still counts the
  record at 110: the sum is 4.
\<close>

theorem C2_selected_counted_twice_counterexample:
  "rowEvents (positionedEvents (\<lambda>e. 40) ByDynasty 100 \<lparr>offsetX = 0, offsetY = 0, scale = 1 / 20\<rparr>
       [pointRecord ''a'' 100, pointRecord ''b'' 110, pointRecord ''c'' 900])
     = [((''g'', 0), positionedEvents (\<lambda>e. 40) ByDynasty 100
          \<lparr>offsetX = 0, offsetY = 0, scale = 1 / 20\<rparr>
          [pointRecord ''a'' 100, pointRecord ''b'' 110, pointRecord ''c'' 900])]
   \<and> length (filter (\<lambda>e. entry_id (p_entry e) \<in> visibleSet (\<lambda>e. 40)
          (positionedEvents (\<lambda>e. 40) ByDynasty 100 \<lparr>offsetX = 0, offsetY = 0, scale = 1 / 20\<rparr>
             [pointRecord ''a'' 100, pointRecord ''b'' 110, pointRecord ''c'' 900])
          (Some (pointRecord ''b'' 110)))
        (positionedEvents (\<lambda>e. 40) ByDynasty 100 \<lparr>offsetX = 0, offsetY = 0, scale = 1 / 20\<rparr>
           [pointRecord ''a'' 100, pointRecord ''b'' 110, pointRecord ''c'' 900]))
     + sum_list (map count (filter (\<lambda>b. rk (afterPos b) = (''g'', 0))
        (hiddenBadges (\<lambda>e. 40)
          (positionedEvents (\<lambda>e. 40) ByDynasty 100 \<lparr>offsetX = 0, offsetY = 0, scale = 1 / 20\<rparr>
             [pointRecord ''a'' 100, pointRecord ''b'' 110, pointRecord ''c'' 900]))))
     = 4
   \<and> length (positionedEvents (\<lambda>e. 40) ByDynasty 100 \<lparr>offsetX = 0, offsetY = 0, scale = 1 / 20\<rparr>
       [pointRecord ''a'' 100, pointRecord ''b'' 110, pointRecord ''c'' 900]) = 3"
proof -
  let ?mw = "\<lambda>e::TimelineEntry. 40::real"
  let ?V = "\<lparr>offsetX = 0, offsetY = 0, scale = 1 / 20\<rparr>"
  let ?G = "[\<lparr>g_key = ''g'', g_y = 40, g_height = 28\<rparr>]"
  let ?S = "positionedEvents ?mw ByDynasty 100 ?V
              [pointRecord ''a'' 100, pointRecord ''b'' 110, pointRecord ''c'' 900]"
  have c: "cullRows ?mw ?S = ({''a'', ''c''}, [closingBadge ?mw ?S 0 2])"
    by (rule cull_100_110_900) simp_all
  have S: "?S = [position ?mw 100 ?V ?G
                   \<lparr>l_entry = pointRecord ''a'' 100, l_row = 0, l_group = ''g''\<rparr>,
                 position ?mw 100 ?V ?G
                   \<lparr>l_entry = pointRecord ''b'' 110, l_row = 0, l_group = ''g''\<rparr>,
                 position ?mw 100 ?V ?G
                   \<lparr>l_entry = pointRecord ''c'' 900, l_row = 0, l_group = ''g''\<rparr>]"
    by (rule positioned_100_110_900) simp_all
  have rows: "rowEvents ?S = [((''g'', 0), ?S)]"
    unfolding S by (rule single_row) (simp_all add: position_point)
  have vis: "visibleSet ?mw ?S (Some (pointRecord ''b'' 110)) = {''b'', ''a'', ''c''}"
    by (simp add: visibleSet_def c pointRecord_id)
  have n: "length (filter (\<lambda>e. entry_id (p_entry e) \<in> {''b'', ''a'', ''c''}) ?S) = 3"
    unfolding S by (simp add: position_point pointRecord_id)
  have b: "sum_list (map count (filter (\<lambda>b. rk (afterPos b) = (''g'', 0))
             (hiddenBadges ?mw ?S))) = 1"
    by (simp add: hiddenBadges_def c badge_100_110_900)
  have len: "length ?S = 3" unfolding S by simp
  show ?thesis using rows n b len by (simp only: vis) simp
qed

text \<open>
  C2, amended. For positioned records with pairwise different ids, any selection and any
  row: the number of records of the row in the visible set plus the sum of the hidden
  counts of the badges emitted for that row equals the number of records of the row,
  plus one when the selected record is a record of that row that the culling pass itself
  left hidden: that record is drawn and is still counted in its badge.
\<close>

theorem C2_every_record_accounted:
  assumes "distinct (map (\<lambda>p. entry_id (p_entry p)) positioned)"
    and "(k, events) \<in> set (rowEvents positioned)"
  shows "length (filter (\<lambda>e. entry_id (p_entry e) \<in> visibleSet mw positioned sel) events)
         + sum_list (map count (filter (\<lambda>b. rk (afterPos b) = k) (hiddenBadges mw positioned)))
       = length events
         + (if \<exists>s. sel = Some s
                 \<and> entry_id s \<in> (\<lambda>e. entry_id (p_entry e)) ` set events
                 \<and> entry_id s \<notin> fst (cullRows mw positioned)
            then 1 else 0)"
proof -
  let ?n = "length events"
  let ?pid = "\<lambda>m. entry_id (p_entry (events ! m))"
  let ?C = "\<lambda>m. \<exists>s. sel = Some s \<and> ?pid m = entry_id s"
  have row: "events = filter (\<lambda>p. rk p = k) positioned" and ne: "events \<noteq> []"
    using assms(2) rowEvents_row by blast+
  have dist: "distinct (map (\<lambda>e. entry_id (p_entry e)) events)"
    using assms(1) row distinct_map_filter by metis
  have shown_iff: "?pid m \<in> fst (cullRows mw positioned) \<longleftrightarrow> shown events m"
    if "m < ?n" for m
    using assms that by (rule culled_iff_shown)
  have vis: "?pid m \<in> visibleSet mw positioned sel \<longleftrightarrow> shown events m \<or> ?C m"
    if "m < ?n" for m
    using shown_iff [OF that] by (cases sel) (auto simp add: visibleSet_def)
  have feq: "filter (\<lambda>m. ?pid m \<in> visibleSet mw positioned sel) [0..<?n]
               = filter (\<lambda>m. shown events m \<or> ?C m) [0..<?n]"
    by (rule filter_cong) (simp_all add: vis)
  have "length (filter (\<lambda>e. entry_id (p_entry e) \<in> visibleSet mw positioned sel) events)
          = length (filter (\<lambda>m. ?pid m \<in> visibleSet mw positioned sel) [0..<?n])"
    by (rule length_filter_nth)
  also have "\<dots> = length (filter (\<lambda>m. shown events m \<or> ?C m) [0..<?n])"
    by (simp only: feq)
  also have "\<dots> = length (filter (shown events) [0..<?n])
                  + length (filter (\<lambda>m. \<not> shown events m \<and> ?C m) [0..<?n])"
    by (rule length_filter_or)
  finally have visible: "length (filter (\<lambda>e. entry_id (p_entry e) \<in> visibleSet mw positioned sel) events)
          = length (filter (shown events) [0..<?n])
            + length (filter (\<lambda>m. \<not> shown events m \<and> ?C m) [0..<?n])" .
  have badges: "sum_list (map count (filter (\<lambda>b. rk (afterPos b) = k) (hiddenBadges mw positioned)))
          = length (filter (\<lambda>m. \<not> shown events m) [0..<?n])"
    using assms(2) ne by (simp add: row_badges_by_key rowBadges_count)
  have all: "length (filter (shown events) [0..<?n])
               + length (filter (\<lambda>m. \<not> shown events m) [0..<?n]) = ?n"
    using sum_length_filter_compl [of "shown events" "[0..<?n]"] by simp
  have extra: "length (filter (\<lambda>m. \<not> shown events m \<and> ?C m) [0..<?n])
          = (if \<exists>s. sel = Some s
                 \<and> entry_id s \<in> (\<lambda>e. entry_id (p_entry e)) ` set events
                 \<and> entry_id s \<notin> fst (cullRows mw positioned)
            then 1 else 0)"
  proof (cases sel)
    case None
    then show ?thesis by simp
  next
    case (Some s)
    have "map ?pid [0..<?n] = map (\<lambda>e. entry_id (p_entry e)) events"
      by (rule map_over_indices [of "\<lambda>e. entry_id (p_entry e)" events])
    then have d: "distinct (map ?pid [0..<?n])"
      using dist by (simp only:)
    have "length (filter (\<lambda>m. \<not> shown events m \<and> ?pid m = entry_id s) [0..<?n])
            = (if \<exists>m\<in>set [0..<?n]. \<not> shown events m \<and> ?pid m = entry_id s then 1 else 0)"
      using d by (rule length_filter_one)
    moreover have "(\<exists>m\<in>set [0..<?n]. \<not> shown events m \<and> ?pid m = entry_id s)
            \<longleftrightarrow> (entry_id s \<in> (\<lambda>e. entry_id (p_entry e)) ` set events
                 \<and> entry_id s \<notin> fst (cullRows mw positioned))"
    proof
      assume "\<exists>m\<in>set [0..<?n]. \<not> shown events m \<and> ?pid m = entry_id s"
      then obtain m where m: "m < ?n" "\<not> shown events m" "?pid m = entry_id s" by auto
      from m(1,3) have "entry_id s \<in> (\<lambda>e. entry_id (p_entry e)) ` set events"
        by (metis image_eqI nth_mem)
      moreover from m shown_iff [OF m(1)] have "entry_id s \<notin> fst (cullRows mw positioned)"
        by simp
      ultimately show "entry_id s \<in> (\<lambda>e. entry_id (p_entry e)) ` set events
                 \<and> entry_id s \<notin> fst (cullRows mw positioned)" by simp
    next
      assume a: "entry_id s \<in> (\<lambda>e. entry_id (p_entry e)) ` set events
                 \<and> entry_id s \<notin> fst (cullRows mw positioned)"
      then obtain m where m: "m < ?n" "?pid m = entry_id s"
        by (auto simp add: in_set_conv_nth)
      with a shown_iff [OF m(1)] have "\<not> shown events m" by simp
      with m show "\<exists>m\<in>set [0..<?n]. \<not> shown events m \<and> ?pid m = entry_id s" by auto
    qed
    ultimately show ?thesis using Some by simp
  qed
  show ?thesis using visible badges all extra by simp
qed


theorem C2_every_record_accounted_witness:
  "distinct (map (\<lambda>p. entry_id (p_entry p))
      (positionedEvents (\<lambda>e. 40) ByDynasty 100 \<lparr>offsetX = 0, offsetY = 0, scale = 1 / 20\<rparr>
         [pointRecord ''a'' 100, pointRecord ''b'' 110, pointRecord ''c'' 900]))
   \<and> ((''g'', 0), positionedEvents (\<lambda>e. 40) ByDynasty 100
         \<lparr>offsetX = 0, offsetY = 0, scale = 1 / 20\<rparr>
         [pointRecord ''a'' 100, pointRecord ''b'' 110, pointRecord ''c'' 900])
       \<in> set (rowEvents (positionedEvents (\<lambda>e. 40) ByDynasty 100
         \<lparr>offsetX = 0, offsetY = 0, scale = 1 / 20\<rparr>
         [pointRecord ''a'' 100, pointRecord ''b'' 110, pointRecord ''c'' 900]))
   \<and> length (filter (\<lambda>e. entry_id (p_entry e) \<in> visibleSet (\<lambda>e. 40)
          (positionedEvents (\<lambda>e. 40) ByDynasty 100 \<lparr>offsetX = 0, offsetY = 0, scale = 1 / 20\<rparr>
             [pointRecord ''a'' 100, pointRecord ''b'' 110, pointRecord ''c'' 900]) None)
        (positionedEvents (\<lambda>e. 40) ByDynasty 100 \<lparr>offsetX = 0, offsetY = 0, scale = 1 / 20\<rparr>
           [pointRecord ''a'' 100, pointRecord ''b'' 110, pointRecord ''c'' 900]))
     + sum_list (map count (filter (\<lambda>b. rk (afterPos b) = (''g'', 0))
        (hiddenBadges (\<lambda>e. 40)
          (positionedEvents (\<lambda>e. 40) ByDynasty 100 \<lparr>offsetX = 0, offsetY = 0, scale = 1 / 20\<rparr>
             [pointRecord ''a'' 100, pointRecord ''b'' 110, pointRecord ''c'' 900]))))
     = 3
   \<and> length (filter (\<lambda>e. entry_id (p_entry e) \<in> visibleSet (\<lambda>e. 40)
          (positionedEvents (\<lambda>e. 40) ByDynasty 100 \<lparr>offsetX = 0, offsetY = 0, scale = 1 / 20\<rparr>
             [pointRecord ''a'' 100, pointRecord ''b'' 110, pointRecord ''c'' 900])
          (Some (pointRecord ''b'' 110)))
        (positionedEvents (\<lambda>e. 40) ByDynasty 100 \<lparr>offsetX = 0, offsetY = 0, scale = 1 / 20\<rparr>
           [pointRecord ''a'' 100, pointRecord ''b'' 110, pointRecord ''c'' 900]))
     + sum_list (map count (filter (\<lambda>b. rk (afterPos b) = (''g'', 0))
        (hiddenBadges (\<lambda>e. 40)
          (positionedEvents (\<lambda>e. 40) ByDynasty 100 \<lparr>offsetX = 0, offsetY = 0, scale = 1 / 20\<rparr>
             [pointRecord ''a'' 100, pointRecord ''b'' 110, pointRecord ''c'' 900]))))
     = 4"
proof -
  let ?mw = "\<lambda>e::TimelineEntry. 40::real"
  let ?V = "\<lparr>offsetX = 0, offsetY = 0, scale = 1 / 20\<rparr>"
  let ?G = "[\<lparr>g_key = ''g'', g_y = 40, g_height = 28\<rparr>]"
  let ?S = "positionedEvents ?mw ByDynasty 100 ?V
              [pointRecord ''a'' 100, pointRecord ''b'' 110, pointRecord ''c'' 900]"
  have S: "?S = [position ?mw 100 ?V ?G
                   \<lparr>l_entry = pointRecord ''a'' 100, l_row = 0, l_group = ''g''\<rparr>,
                 position ?mw 100 ?V ?G
                   \<lparr>l_entry = pointRecord ''b'' 110, l_row = 0, l_group = ''g''\<rparr>,
                 position ?mw 100 ?V ?G
                   \<lparr>l_entry = pointRecord ''c'' 900, l_row = 0, l_group = ''g''\<rparr>]"
    by (rule positioned_100_110_900) simp_all
  have d: "distinct (map (\<lambda>p. entry_id (p_entry p)) ?S)"
    unfolding S by (simp add: position_point pointRecord_id)
  have rows: "rowEvents ?S = [((''g'', 0), ?S)]"
    unfolding S by (rule single_row) (simp_all add: position_point)
  then have mem: "((''g'', 0), ?S) \<in> set (rowEvents ?S)" by simp
  have len: "length ?S = 3" unfolding S by simp
  have c: "cullRows ?mw ?S = ({''a'', ''c''}, [closingBadge ?mw ?S 0 2])"
    by (rule cull_100_110_900) simp_all
  have ids: "(\<lambda>e. entry_id (p_entry e)) ` set ?S = {''a'', ''b'', ''c''}"
    unfolding S by (simp add: position_point pointRecord_id)
  from C2_every_record_accounted [OF d mem, where mw = ?mw and sel = None]
  have none: "length (filter (\<lambda>e. entry_id (p_entry e) \<in> visibleSet ?mw ?S None) ?S)
     + sum_list (map count (filter (\<lambda>b. rk (afterPos b) = (''g'', 0)) (hiddenBadges ?mw ?S)))
     = 3"
    by (simp add: len)
  from C2_every_record_accounted [OF d mem, where mw = ?mw
      and sel = "Some (pointRecord ''b'' 110)"]
  have some: "length (filter (\<lambda>e. entry_id (p_entry e)
           \<in> visibleSet ?mw ?S (Some (pointRecord ''b'' 110))) ?S)
     + sum_list (map count (filter (\<lambda>b. rk (afterPos b) = (''g'', 0)) (hiddenBadges ?mw ?S)))
     = 4"
    by (simp add: len ids c pointRecord_id)
  from d mem none some show ?thesis by blast
qed

end
